theory Spec2Isabelle
  imports Complex_Main "HOL-Library.Log_Nat"
begin

section \<open>JavaScript values\<close>

text \<open>
  The backend is JavaScript. A number is a rational: a number in the store is the decimal
  that the database holds, and the balance formulas of \<open>transactions.js\<close> are evaluated
  exactly on these decimals. The consumption tick is different: it tests the sign of a
  difference of two sums and subtracts again, which depends on the rounding of IEEE
  doubles, so there every number is the exact value of a double and every operation
  rounds as the machine does (\<open>binary64\<close> below). \<open>NaN\<close> and the infinities are left out of
  the type \<open>rat\<close>: no number reaches \<open>2^1024\<close>. Where a value of any type can occur (the fields of a callback payload and
  what is copied from them) it is a \<open>jsval\<close>, in which \<open>NaN\<close> stands beside the numbers.
  The fields that the code reads from a payload hold the scalars of JSON, not objects or
  arrays.
\<close>

datatype jsval = Undefined | Null | Bool bool | Num rat | NaN | Str string

text \<open>\<open>!!v\<close>: the values JavaScript treats as false are \<open>undefined\<close>, \<open>null\<close>,
  \<open>false\<close>, \<open>0\<close>, \<open>NaN\<close> and the empty string.\<close>

fun truthy :: "jsval \<Rightarrow> bool" where
  "truthy Undefined = False"
| "truthy Null = False"
| "truthy (Bool b) = b"
| "truthy (Num r) = (r \<noteq> 0)"
| "truthy NaN = False"
| "truthy (Str s) = (s \<noteq> [])"

text \<open>\<open>a || b\<close> yields \<open>a\<close> when it is truthy and \<open>b\<close> otherwise.\<close>

definition js_or :: "jsval \<Rightarrow> jsval \<Rightarrow> jsval" where
  "js_or a b = (if truthy a then a else b)"

text \<open>An object literal such as a callback payload: property names with their values.
  Reading a property that is not there yields \<open>undefined\<close>.\<close>

type_synonym jsobject = "(string \<times> jsval) list"

definition js_get :: "jsobject \<Rightarrow> string \<Rightarrow> jsval" where
  "js_get obj name = (case map_of obj name of None \<Rightarrow> Undefined | Some v \<Rightarrow> v)"

subsection \<open>Rounding\<close>

text \<open>
  \<open>parseFloat(x.toFixed(f))\<close>: \<open>Number.prototype.toFixed\<close> picks the integer \<open>n\<close> for which
  \<open>n / 10^f\<close> is closest to \<open>x\<close>, the larger one on a tie, after moving the sign of a
  negative \<open>x\<close> in front; \<open>parseFloat\<close> reads the decimal string back.
\<close>

definition toFixed :: "nat \<Rightarrow> rat \<Rightarrow> rat" where
  "toFixed f x =
     (if x < 0 then - (of_int \<lfloor>- x * 10 ^ f + 1 / 2\<rfloor> / 10 ^ f)
      else of_int \<lfloor>x * 10 ^ f + 1 / 2\<rfloor> / 10 ^ f)"

text \<open>\<open>Math.round(x)\<close> is \<open>floor(x + 0.5)\<close>, also for a negative \<open>x\<close>.\<close>

definition Math_round :: "rat \<Rightarrow> rat" where
  "Math_round x = of_int \<lfloor>x + 1 / 2\<rfloor>"

text \<open>\<open>a % b\<close> on numbers: the remainder takes the sign of the dividend.\<close>

definition js_rem :: "rat \<Rightarrow> rat \<Rightarrow> rat" where
  "js_rem a b =
     (let q = a / b in a - b * of_int (if q < 0 then \<lceil>q\<rceil> else \<lfloor>q\<rfloor>))"

subsection \<open>Doubles\<close>

text \<open>
  \<open>binary64 x\<close> is the double nearest to \<open>x\<close>, the one with the even significand on a
  tie: the value that the decimal \<open>x\<close> denotes in a JavaScript program, and the result of
  an arithmetic operation whose exact result is \<open>x\<close>. A double has a significand of 53
  bits; below \<open>2^-1022\<close> the doubles are the multiples of \<open>2^-1074\<close>.
\<close>

definition pow2 :: "int \<Rightarrow> rat" where
  "pow2 k = (if 0 \<le> k then 2 ^ nat k else 1 / 2 ^ nat (- k))"

text \<open>For a positive \<open>x\<close>, the \<open>k\<close> with \<open>2^k \<le> x < 2^(k+1)\<close>: from the bit length of
  \<open>\<lfloor>x\<rfloor>\<close> when \<open>1 \<le> x\<close>, and otherwise from the least \<open>m\<close> with \<open>1 / x \<le> 2^m\<close>, which is the
  bit length of \<open>\<lceil>1 / x\<rceil> - 1\<close>.\<close>

definition floor_log2 :: "rat \<Rightarrow> int" where
  "floor_log2 x = (if 1 \<le> x then bitlen \<lfloor>x\<rfloor> - 1 else - bitlen (\<lceil>1 / x\<rceil> - 1))"

definition round_half_even :: "rat \<Rightarrow> int" where
  "round_half_even y =
     (let n = \<lfloor>y\<rfloor>; r = y - of_int n
      in if r < 1 / 2 then n else if 1 / 2 < r then n + 1 else if even n then n else n + 1)"

definition binary64 :: "rat \<Rightarrow> rat" where
  "binary64 x =
     (if x = 0 then 0
      else let ulp = pow2 (max (floor_log2 \<bar>x\<bar>) (- 1022) - 52)
           in sgn x * of_int (round_half_even (\<bar>x\<bar> / ulp)) * ulp)"

section \<open>Unit converter (transactions.js)\<close>

text \<open>\<open>calculateUnits(amount)\<close>: 1 unit = KSH 25, two decimal places. \<open>parseFloat\<close> of
  a number is that number.\<close>

definition calculateUnits :: "rat \<Rightarrow> rat" where
  "calculateUnits amount = toFixed 2 (amount / 25)"

text \<open>The specification's \<open>round(x, 2)\<close>, by what it means: \<open>q\<close> has at most two decimal
  places and no value with two decimal places is closer to \<open>x\<close>.\<close>

definition is_round2 :: "rat \<Rightarrow> rat \<Rightarrow> bool" where
  "is_round2 x q \<longleftrightarrow> of_int \<lfloor>q * 100\<rfloor> = q * 100 \<and> \<bar>q - x\<bar> \<le> 1 / 200"

section \<open>The ledger store\<close>

text \<open>
  A collection of the Firebase database (\<open>users\<close>, \<open>transactions\<close>, \<open>unit_consumption\<close>)
  is the list of its children in key order. \<open>push()\<close> generates keys in increasing order
  and nothing is ever deleted, so a pushed child goes to the end of the list and its key is
  its position. A field that a child does not have is \<open>None\<close>, or \<open>Null\<close> where the field
  is a \<open>jsval\<close> (the database does not store \<open>null\<close>). The records hold the fields that the
  functions below read or write. Reads and writes of the store do not fail.
\<close>

type_synonym key = nat

record user =
  u_meter_no :: jsval
  u_balance :: "rat option"
  u_latest_transaction_id :: "key option"
  u_last_payment_timestamp :: "string option"
  u_last_payment_amount :: jsval
  u_last_units_purchased :: "rat option"
  u_current_units :: "rat option"
  u_last_consumption_timestamp :: "string option"
  u_last_consumption_amount :: "rat option"

record transaction =
  t_user_id :: key
  t_meter_no :: jsval
  t_amount :: jsval
  t_units :: "rat option"
  t_remainder :: "rat option"
  t_status :: string
  t_timestamp :: string
  t_reference :: jsval
  t_mpesa_receipt :: jsval
  t_phone_number :: jsval
  t_result_code :: jsval
  t_result_desc :: jsval
  t_raw_callback :: "jsobject option"

record consumption =
  c_user_id :: "key option"
  c_meter_no :: "string option"
  c_units_consumed :: rat
  c_units_before :: rat
  c_units_after :: rat
  c_consumption_rate :: "rat option"
  c_timestamp :: jsval
  c_type :: "string option"

record meter =
  m_user_id :: "key option"
  m_balance :: "rat option"

record store =
  users :: "user list"
  transactions :: "transaction list"
  unit_consumption :: "consumption list"
  meters :: "string \<rightharpoonup> meter"

text \<open>What the functions take from the JavaScript runtime: the clock, read once for a
  call (\<open>new Date().toISOString()\<close> and \<open>Date.now()\<close>), \<open>Date\<close> parsing (\<open>None\<close> when
  \<open>toISOString\<close> throws on an invalid date) and \<open>parseFloat\<close> on a string (\<open>None\<close> for
  \<open>NaN\<close>).\<close>

record env =
  now :: string
  now_ms :: rat
  Date_toISOString :: "jsval \<Rightarrow> string option"
  parseFloat_string :: "string \<Rightarrow> rat option"

definition parseFloat :: "env \<Rightarrow> jsval \<Rightarrow> jsval" where
  "parseFloat e v =
     (case v of
        Num r \<Rightarrow> Num r
      | Str str \<Rightarrow> (case parseFloat_string e str of None \<Rightarrow> NaN | Some r \<Rightarrow> Num r)
      | _ \<Rightarrow> NaN)"

text \<open>\<open>orderByChild(f).equalTo(v)\<close> followed by \<open>Object.keys(...)[0]\<close>: the key of the first
  child that satisfies the query, if there is one.\<close>

fun find_key :: "('a \<Rightarrow> bool) \<Rightarrow> 'a list \<Rightarrow> key option" where
  "find_key P [] = None"
| "find_key P (x # xs) = (if P x then Some 0 else map_option Suc (find_key P xs))"

text \<open>\<open>db.ref(path/k).update(...)\<close> on a child that is there. (On a key that is not there
  the database would create a child with the updated fields only; the functions below
  update children they have just found.)\<close>

definition update_at :: "key \<Rightarrow> ('a \<Rightarrow> 'a) \<Rightarrow> 'a list \<Rightarrow> 'a list" where
  "update_at k f xs = (if k < length xs then xs[k := f (xs ! k)] else xs)"

definition update_user :: "key \<Rightarrow> (user \<Rightarrow> user) \<Rightarrow> store \<Rightarrow> store" where
  "update_user userId f s = s\<lparr>users := update_at userId f (users s)\<rparr>"

section \<open>Transaction recorder and balance calculator (transactions.js)\<close>

datatype error = BillRefNumber_required | No_user_found jsval

definition findUserIdByMeter :: "store \<Rightarrow> jsval \<Rightarrow> key option" where
  "findUserIdByMeter s meterNo = find_key (\<lambda>u. u_meter_no u = meterNo) (users s)"

text \<open>The two loops of \<open>calculateAvailableUnits\<close>, which the consumption service repeats
  word for word: \<open>parseFloat(transaction.units || 0)\<close> is \<open>0\<close> for a transaction without
  units.\<close>

definition totalPurchasedUnits :: "store \<Rightarrow> key \<Rightarrow> rat" where
  "totalPurchasedUnits s userId =
     fold (\<lambda>transaction total.
             if t_status transaction = ''SUCCESS'' \<or> t_status transaction = ''completed''
             then total + (case t_units transaction of None \<Rightarrow> 0 | Some u \<Rightarrow> u)
             else total)
          (filter (\<lambda>t. t_user_id t = userId) (transactions s)) 0"

definition totalConsumedUnits :: "store \<Rightarrow> key \<Rightarrow> rat" where
  "totalConsumedUnits s userId =
     fold (\<lambda>consumption total. total + c_units_consumed consumption)
          (filter (\<lambda>c. c_user_id c = Some userId) (unit_consumption s)) 0"

definition calculateAvailableUnits :: "store \<Rightarrow> key \<Rightarrow> rat" where
  "calculateAvailableUnits s userId =
     toFixed 2 (max 0 (totalPurchasedUnits s userId - totalConsumedUnits s userId))"

text \<open>\<open>createTransactionForMeter(meterNo, amount, status, reference)\<close> returns the new
  transaction with its key, or throws when no user has the meter.\<close>

definition createTransactionForMeter ::
  "env \<Rightarrow> store \<Rightarrow> jsval \<Rightarrow> rat \<Rightarrow> string \<Rightarrow> jsval \<Rightarrow> error + (key \<times> transaction \<times> store)" where
  "createTransactionForMeter e s meterNo amount status reference =
     (case findUserIdByMeter s meterNo of
        None \<Rightarrow> Inl (No_user_found meterNo)
      | Some userId \<Rightarrow>
          let units = calculateUnits amount;
              remainder = js_rem amount 25;
              transactionId = length (transactions s);
              transaction = \<lparr>t_user_id = userId, t_meter_no = meterNo, t_amount = Num amount,
                t_units = Some units, t_remainder = Some remainder, t_status = status,
                t_timestamp = now e, t_reference = reference, t_mpesa_receipt = Null,
                t_phone_number = Null, t_result_code = Null, t_result_desc = Null,
                t_raw_callback = None\<rparr>;
              s1 = s\<lparr>transactions := transactions s @ [transaction]\<rparr>
          in if status = ''SUCCESS''
             then let s2 = update_user userId
                         (\<lambda>u. u\<lparr>u_latest_transaction_id := Some transactionId,
                                 u_last_payment_timestamp := Some (t_timestamp transaction),
                                 u_last_payment_amount := Num amount,
                                 u_last_units_purchased := Some units\<rparr>) s1;
                      availableUnits = calculateAvailableUnits s2 userId
                  in Inr (transactionId, transaction,
                          update_user userId (\<lambda>u. u\<lparr>u_balance := Some availableUnits\<rparr>) s2)
             else Inr (transactionId, transaction, s1))"

definition transactionExists :: "store \<Rightarrow> jsval \<Rightarrow> bool" where
  "transactionExists s mpesaReceiptNumber =
     (if \<not> truthy mpesaReceiptNumber then False
      else list_ex (\<lambda>t. t_mpesa_receipt t = mpesaReceiptNumber) (transactions s))"

definition findTransactionByReference :: "store \<Rightarrow> jsval \<Rightarrow> key option" where
  "findTransactionByReference s reference =
     (if \<not> truthy reference then None
      else find_key (\<lambda>t. t_reference t = reference) (transactions s))"

text \<open>The timestamp of a callback: the gateway's \<open>YYYYMMDDHHMMSS\<close> is rewritten to an ISO
  date before parsing, anything else is parsed as it is, and the current time stands in
  when \<open>toISOString\<close> throws.\<close>

definition substring :: "nat \<Rightarrow> nat \<Rightarrow> string \<Rightarrow> string" where
  "substring a b str = take (b - a) (drop a str)"

definition formattedTimestamp :: "env \<Rightarrow> jsval \<Rightarrow> string" where
  "formattedTimestamp e transactionDate =
     (let iso =
        (case transactionDate of
           Str d \<Rightarrow>
             if d \<noteq> [] \<and> length d = 14
             then Date_toISOString e (Str (substring 0 4 d @ ''-'' @ substring 4 6 d @ ''-'' @
                    substring 6 8 d @ ''T'' @ substring 8 10 d @ '':'' @ substring 10 12 d @
                    '':'' @ substring 12 14 d @ ''Z''))
             else Date_toISOString e transactionDate
         | _ \<Rightarrow> Date_toISOString e transactionDate)
      in case iso of None \<Rightarrow> now e | Some t \<Rightarrow> t)"

datatype message = Already_processed | Processed string | Error_message error

record callback_result =
  success :: bool
  duplicate :: bool
  r_message :: message
  r_transaction_id :: "key option"
  r_status :: "string option"

text \<open>The fields \<open>saveCallbackTransaction\<close> extracts from a payload, each with its
  fallbacks for the payload formats of the gateway.\<close>

definition resultCode_of :: "jsobject \<Rightarrow> jsval" where
  "resultCode_of callbackData =
     js_or (js_or (js_get callbackData ''ResultCode'') (js_get callbackData ''resultCode''))
           (Num 1)"

definition resultDesc_of :: "jsobject \<Rightarrow> jsval" where
  "resultDesc_of callbackData =
     js_or (js_or (js_get callbackData ''ResultDesc'') (js_get callbackData ''resultDesc''))
           (Str ''Unknown result'')"

definition mpesaReceiptNumber_of :: "jsobject \<Rightarrow> jsval" where
  "mpesaReceiptNumber_of callbackData =
     js_or (js_or (js_get callbackData ''MpesaReceiptNumber'')
                  (js_get callbackData ''mpesaReceiptNumber''))
           (js_get callbackData ''TransactionID'')"

definition amount_of :: "env \<Rightarrow> jsobject \<Rightarrow> jsval" where
  "amount_of e callbackData =
     parseFloat e (js_or (js_or (js_or (js_get callbackData ''Amount'')
                                       (js_get callbackData ''amount''))
                                (js_get callbackData ''TransAmount'')) (Num 0))"

definition transactionDate_of :: "env \<Rightarrow> jsobject \<Rightarrow> jsval" where
  "transactionDate_of e callbackData =
     js_or (js_or (js_get callbackData ''TransactionDate'')
                  (js_get callbackData ''transactionDate'')) (Str (now e))"

definition billRefNumber_of :: "jsobject \<Rightarrow> jsval" where
  "billRefNumber_of callbackData =
     js_or (js_or (js_get callbackData ''BillRefNumber'') (js_get callbackData ''billRefNumber''))
           (js_get callbackData ''AccountReference'')"

definition phoneNumber_of :: "jsobject \<Rightarrow> jsval" where
  "phoneNumber_of callbackData =
     js_or (js_or (js_get callbackData ''PhoneNumber'') (js_get callbackData ''phoneNumber''))
           (js_get callbackData ''MSISDN'')"

definition conversationId_of :: "jsobject \<Rightarrow> jsval" where
  "conversationId_of callbackData =
     js_or (js_get callbackData ''OriginatorCoversationID'')
           (js_get callbackData ''originatorCoversationID'')"

text \<open>The fields a callback writes, on a transaction it updates and on one it creates.\<close>

definition callback_fields ::
  "jsval \<Rightarrow> jsval \<Rightarrow> jsval \<Rightarrow> jsval \<Rightarrow> string \<Rightarrow> string \<Rightarrow> jsobject \<Rightarrow> transaction \<Rightarrow> transaction" where
  "callback_fields resultCode resultDesc mpesaReceiptNumber phoneNumber status timestamp
       callbackData t =
     t\<lparr>t_status := status,
       t_mpesa_receipt := js_or mpesaReceiptNumber Null,
       t_phone_number := js_or phoneNumber Null,
       t_result_code := resultCode,
       t_result_desc := resultDesc,
       t_timestamp := timestamp,
       t_raw_callback := Some callbackData\<rparr>"

definition saveCallbackTransaction :: "env \<Rightarrow> store \<Rightarrow> jsobject \<Rightarrow> callback_result \<times> store" where
  "saveCallbackTransaction e s callbackData =
     (let resultCode = resultCode_of callbackData;
          resultDesc = resultDesc_of callbackData;
          mpesaReceiptNumber = mpesaReceiptNumber_of callbackData;
          amount = amount_of e callbackData;
          transactionDate = transactionDate_of e callbackData;
          billRefNumber = billRefNumber_of callbackData;
          phoneNumber = phoneNumber_of callbackData
      in if \<not> truthy billRefNumber
         then (\<lparr>success = False, duplicate = False,
                 r_message = Error_message BillRefNumber_required,
                 r_transaction_id = None, r_status = None\<rparr>, s)
         else if truthy mpesaReceiptNumber \<and> transactionExists s mpesaReceiptNumber
         then (\<lparr>success = True, duplicate = True, r_message = Already_processed,
                 r_transaction_id = None, r_status = None\<rparr>, s)
         else
           let conversationId = conversationId_of callbackData;
               existingTransaction =
                 (if truthy conversationId then findTransactionByReference s conversationId
                  else None)
           in case findUserIdByMeter s billRefNumber of
                None \<Rightarrow> (\<lparr>success = False, duplicate = False,
                            r_message = Error_message (No_user_found billRefNumber),
                            r_transaction_id = None, r_status = None\<rparr>, s)
              | Some userId \<Rightarrow>
                  let status = (if resultCode = Num 0 then ''SUCCESS'' else ''FAILED'');
                      timestamp = formattedTimestamp e transactionDate;
                      (transactionId, s1) =
                        (case existingTransaction of
                           Some existing \<Rightarrow>
                             (existing,
                              s\<lparr>transactions := update_at existing
                                   (callback_fields resultCode resultDesc mpesaReceiptNumber
                                      phoneNumber status timestamp callbackData)
                                   (transactions s)\<rparr>)
                         | None \<Rightarrow>
                             (length (transactions s),
                              s\<lparr>transactions := transactions s @
                                   [\<lparr>t_user_id = userId, t_meter_no = billRefNumber,
                                     t_amount = amount, t_units = None, t_remainder = None,
                                     t_status = status, t_timestamp = timestamp,
                                     t_reference = Null,
                                     t_mpesa_receipt = js_or mpesaReceiptNumber Null,
                                     t_phone_number = js_or phoneNumber Null,
                                     t_result_code = resultCode, t_result_desc = resultDesc,
                                     t_raw_callback = Some callbackData\<rparr>]\<rparr>));
                      s3 = (if status = ''SUCCESS''
                            then let s2 = update_user userId
                                        (\<lambda>u. u\<lparr>u_latest_transaction_id := Some transactionId,
                                                u_last_payment_timestamp := Some timestamp,
                                                u_last_payment_amount := amount\<rparr>) s1;
                                     availableUnits = calculateAvailableUnits s2 userId
                                 in update_user userId
                                      (\<lambda>u. u\<lparr>u_balance := Some availableUnits\<rparr>) s2
                            else s1)
                  in (\<lparr>success = True, duplicate = False, r_message = Processed status,
                        r_transaction_id = Some transactionId, r_status = Some status\<rparr>, s3))"

section \<open>Consumption simulator (unit-consumption.js)\<close>

definition consumptionRate :: rat where
  "consumptionRate = 1 / 10"

text \<open>The service has its own \<open>calculateAvailableUnits\<close>: the same two sums, clamped at
  zero, not rounded. Its value in exact arithmetic:\<close>

definition service_calculateAvailableUnits :: "store \<Rightarrow> key \<Rightarrow> rat" where
  "service_calculateAvailableUnits s userId =
     max 0 (totalPurchasedUnits s userId - totalConsumedUnits s userId)"

text \<open>and as the machine computes it, which is what the tick works with: each stored
  number is read as the double it denotes, and each addition and the subtraction round
  to a double.\<close>

definition service_calculateAvailableUnits_double :: "store \<Rightarrow> key \<Rightarrow> rat" where
  "service_calculateAvailableUnits_double s userId =
     (let totalPurchasedUnits =
            fold (\<lambda>transaction total.
                    if t_status transaction = ''SUCCESS'' \<or> t_status transaction = ''completed''
                    then binary64 (total + binary64 (case t_units transaction of
                                                       None \<Rightarrow> 0 | Some u \<Rightarrow> u))
                    else total)
                 (filter (\<lambda>t. t_user_id t = userId) (transactions s)) 0;
          totalConsumedUnits =
            fold (\<lambda>consumption total.
                    binary64 (total + binary64 (c_units_consumed consumption)))
                 (filter (\<lambda>c. c_user_id c = Some userId) (unit_consumption s)) 0
      in max 0 (binary64 (totalPurchasedUnits - totalConsumedUnits)))"

text \<open>\<open>recordUnitConsumption\<close> writes each amount as \<open>parseFloat(x.toFixed(2))\<close>, a decimal
  with two places.\<close>

definition recordUnitConsumption :: "env \<Rightarrow> store \<Rightarrow> key \<Rightarrow> rat \<Rightarrow> rat \<Rightarrow> rat \<Rightarrow> store" where
  "recordUnitConsumption e s userId unitsConsumed unitsBefore unitsAfter =
     (let consumptionRecord = \<lparr>c_user_id = Some userId, c_meter_no = None,
            c_units_consumed = toFixed 2 unitsConsumed,
            c_units_before = toFixed 2 unitsBefore,
            c_units_after = toFixed 2 unitsAfter,
            c_consumption_rate = Some consumptionRate,
            c_timestamp = Str (now e), c_type = Some ''automatic_consumption''\<rparr>;
          s1 = s\<lparr>unit_consumption := unit_consumption s @ [consumptionRecord]\<rparr>
      in update_user userId
           (\<lambda>u. u\<lparr>u_current_units := Some (toFixed 2 unitsAfter),
                   u_last_consumption_timestamp := Some (now e),
                   u_last_consumption_amount := Some (toFixed 2 unitsConsumed)\<rparr>) s1)"

text \<open>\<open>consumeUnitsForUser(userId, userData)\<close> does not read \<open>userData\<close>. The rate is the
  double that \<open>0.1\<close> denotes, and the difference is rounded to a double.\<close>

definition consumeUnitsForUser :: "env \<Rightarrow> store \<Rightarrow> key \<Rightarrow> store" where
  "consumeUnitsForUser e s userId =
     (let availableUnits = service_calculateAvailableUnits_double s userId
      in if availableUnits \<le> 0 then s
         else let unitsToConsume = min (binary64 consumptionRate) availableUnits;
                  newAvailableUnits = max 0 (binary64 (availableUnits - unitsToConsume))
              in recordUnitConsumption e s userId unitsToConsume availableUnits
                   newAvailableUnits)"

text \<open>One tick: every user of the snapshot taken at its start, in key order.\<close>

definition consumeUnitsForAllUsers :: "env \<Rightarrow> store \<Rightarrow> store" where
  "consumeUnitsForAllUsers e s =
     fold (\<lambda>userId s'. consumeUnitsForUser e s' userId) [0..<length (users s)] s"

section \<open>Device-driven consumption (services/meterService.js)\<close>

definition round4 :: "rat \<Rightarrow> rat" where
  "round4 x = Math_round (x * 10000) / 10000"

record consume_result =
  newBalance :: rat
  prevBalance :: rat
  unitsConsumed :: rat

text \<open>\<open>Number(snapshot.val() || 0)\<close> on \<open>meters/meterNo/balance\<close>: a missing meter or
  balance reads as \<open>0\<close>.\<close>

definition meter_balance :: "store \<Rightarrow> string \<Rightarrow> rat" where
  "meter_balance s meterNo =
     (case meters s meterNo of None \<Rightarrow> 0
      | Some m \<Rightarrow> (case m_balance m of None \<Rightarrow> 0 | Some b \<Rightarrow> b))"

text \<open>\<open>consumeUnits(meterNo, units)\<close>; the balance transaction commits, and nothing else
  writes the balance between the read of the previous balance and the transaction.\<close>

definition consumeUnits :: "env \<Rightarrow> store \<Rightarrow> string \<Rightarrow> rat \<Rightarrow> consume_result \<times> store" where
  "consumeUnits e s meterNo units =
     (let meta = meters s meterNo;
          userId = (case meta of None \<Rightarrow> None | Some m \<Rightarrow> m_user_id m);
          prev = meter_balance s meterNo;
          new = max 0 (round4 (prev - units));
          s1 = s\<lparr>meters := (meters s)(meterNo \<mapsto>
                 (case meta of None \<Rightarrow> \<lparr>m_user_id = None, m_balance = Some new\<rparr>
                  | Some m \<Rightarrow> m\<lparr>m_balance := Some new\<rparr>))\<rparr>;
          s2 = (case userId of None \<Rightarrow> s1
                | Some u \<Rightarrow> update_user u (\<lambda>usr. usr\<lparr>u_balance := Some new\<rparr>) s1);
          logData = \<lparr>c_user_id = userId, c_meter_no = Some meterNo,
            c_units_consumed = units, c_units_before = prev, c_units_after = new,
            c_consumption_rate = None, c_timestamp = Num (now_ms e), c_type = None\<rparr>
      in (\<lparr>newBalance = new, prevBalance = prev, unitsConsumed = units\<rparr>,
          s2\<lparr>unit_consumption := unit_consumption s2 @ [logData]\<rparr>))"

section \<open>Sequences of purchases and ticks\<close>

datatype event =
    Purchase jsval rat string jsval
  | Callback jsobject
  | Tick

fun step :: "env \<Rightarrow> event \<Rightarrow> store \<Rightarrow> store" where
  "step e (Purchase meterNo amount status reference) s =
     (case createTransactionForMeter e s meterNo amount status reference of
        Inl err \<Rightarrow> s
      | Inr (transactionId, transaction, s') \<Rightarrow> s')"
| "step e (Callback callbackData) s = snd (saveCallbackTransaction e s callbackData)"
| "step e Tick s = consumeUnitsForAllUsers e s"

definition run :: "env \<Rightarrow> event list \<Rightarrow> store \<Rightarrow> store" where
  "run e evs s = fold (step e) evs s"

section \<open>Reference definitions\<close>

text \<open>Rounding half up to \<open>f\<close> decimal places, which \<open>toFixed\<close> does to a number that is
  not negative.\<close>

definition half_up :: "nat \<Rightarrow> rat \<Rightarrow> rat" where
  "half_up f y = of_int \<lfloor>y * 10 ^ f + 1 / 2\<rfloor> / 10 ^ f"

text \<open>The units a transaction contributes to a balance, and the two sums of the balance
  written as sums over the records of a user.\<close>

definition transaction_units :: "transaction \<Rightarrow> rat" where
  "transaction_units t = (case t_units t of None \<Rightarrow> 0 | Some u \<Rightarrow> u)"

definition purchased_units :: "store \<Rightarrow> key \<Rightarrow> rat" where
  "purchased_units s userId =
     sum_list (map transaction_units
       (filter (\<lambda>t. t_user_id t = userId \<and> (t_status t = ''SUCCESS'' \<or> t_status t = ''completed''))
          (transactions s)))"

definition consumed_units :: "store \<Rightarrow> key \<Rightarrow> rat" where
  "consumed_units s userId =
     sum_list (map c_units_consumed
       (filter (\<lambda>c. c_user_id c = Some userId) (unit_consumption s)))"

text \<open>The numbers that the two loops of the service add up for a user, the sum of a list
  as the machine adds it, and what a tick does to the consumed numbers of a user.\<close>

definition purchased_list :: "store \<Rightarrow> key \<Rightarrow> rat list" where
  "purchased_list s userId =
     map transaction_units
       (filter (\<lambda>t. t_user_id t = userId \<and> (t_status t = ''SUCCESS'' \<or> t_status t = ''completed''))
          (transactions s))"

definition consumed_list :: "store \<Rightarrow> key \<Rightarrow> rat list" where
  "consumed_list s userId =
     map c_units_consumed (filter (\<lambda>c. c_user_id c = Some userId) (unit_consumption s))"

definition double_sum :: "rat list \<Rightarrow> rat" where
  "double_sum xs = fold (\<lambda>x total. binary64 (total + binary64 x)) xs 0"

definition tick_consumed :: "rat list \<Rightarrow> rat list \<Rightarrow> rat list" where
  "tick_consumed ps cs =
     (let available = max 0 (binary64 (double_sum ps - double_sum cs))
      in if available \<le> 0 then cs
         else cs @ [toFixed 2 (min (binary64 consumptionRate) available)])"





text \<open>The units that the successful purchases of a sequence of events give to a user.\<close>

fun is_callback :: "event \<Rightarrow> bool" where
  "is_callback (Callback callbackData) = True"
| "is_callback ev = False"

fun units_bought :: "store \<Rightarrow> key \<Rightarrow> event list \<Rightarrow> rat" where
  "units_bought s userId [] = 0"
| "units_bought s userId (Purchase meterNo amount status reference # evs) =
     (if findUserIdByMeter s meterNo = Some userId \<and> (status = ''SUCCESS'' \<or> status = ''completed'')
      then calculateUnits amount else 0) + units_bought s userId evs"
| "units_bought s userId (ev # evs) = units_bought s userId evs"

section \<open>Test data\<close>

text \<open>The user of \<open>create-test-user.js\<close>, the callback of \<open>test-callback.js\<close> and the payment
  of \<open>test-units.js\<close>.\<close>

definition test_env :: env where
  "test_env = \<lparr>now = ''2024-12-28T16:00:05.000Z'', now_ms = 1735401605000,
     Date_toISOString = (\<lambda>v. if v = Str ''2024-12-28T16:00:00Z''
                              then Some ''2024-12-28T16:00:00.000Z'' else None),
     parseFloat_string = (\<lambda>str. None)\<rparr>"

definition test_user :: user where
  "test_user = \<lparr>u_meter_no = Str ''12345678'', u_balance = Some 0,
     u_latest_transaction_id = None, u_last_payment_timestamp = None,
     u_last_payment_amount = Null, u_last_units_purchased = None, u_current_units = None,
     u_last_consumption_timestamp = None, u_last_consumption_amount = None\<rparr>"

definition test_store :: store where
  "test_store = \<lparr>users = [test_user], transactions = [], unit_consumption = [],
     meters = Map.empty\<rparr>"

definition test_callback :: jsobject where
  "test_callback =
     [(''ResultCode'', Num 0),
      (''ResultDesc'', Str ''The service request is processed successfully.''),
      (''OriginatorCoversationID'', Str ''2faf-403f-8dd5-e16e87cf43cf20027''),
      (''MpesaReceiptNumber'', Str ''ABC123456789''),
      (''Amount'', Num 800),
      (''TransactionDate'', Str ''20241228160000''),
      (''BillRefNumber'', Str ''12345678''),
      (''PhoneNumber'', Str ''254708374149'')]"

text \<open>The same callback without its receipt number, and without its bill reference.\<close>

definition callback_without_receipt :: jsobject where
  "callback_without_receipt = filter (\<lambda>(name, v). name \<noteq> ''MpesaReceiptNumber'') test_callback"

definition callback_without_billref :: jsobject where
  "callback_without_billref = filter (\<lambda>(name, v). name \<noteq> ''BillRefNumber'') test_callback"

text \<open>The store after the payment of KSH 125 has been initiated with the conversation id
  of the callback.\<close>

definition initiated_store :: store where
  "initiated_store =
     (case createTransactionForMeter test_env test_store (Str ''12345678'') 125 ''SUCCESS''
             (Str ''2faf-403f-8dd5-e16e87cf43cf20027'') of
        Inl err \<Rightarrow> test_store
      | Inr (transactionId, transaction, s) \<Rightarrow> s)"


definition small_units_store :: store where
  "small_units_store = test_store\<lparr>transactions :=
     [\<lparr>t_user_id = 0, t_meter_no = Str ''12345678'', t_amount = Num (3 / 25),
       t_units = Some (3 / 500), t_remainder = None, t_status = ''SUCCESS'',
       t_timestamp = ''2024-12-28T16:00:00.000Z'', t_reference = Null, t_mpesa_receipt = Null,
       t_phone_number = Null, t_result_code = Null, t_result_desc = Null,
       t_raw_callback = None\<rparr>]\<rparr>"

definition eighth_units_store :: store where
  "eighth_units_store = test_store\<lparr>transactions :=
     [\<lparr>t_user_id = 0, t_meter_no = Str ''12345678'', t_amount = Num (5 / 2),
       t_units = Some (1 / 8), t_remainder = None, t_status = ''SUCCESS'',
       t_timestamp = ''2024-12-28T16:00:00.000Z'', t_reference = Null, t_mpesa_receipt = Null,
       t_phone_number = Null, t_result_code = Null, t_result_desc = Null,
       t_raw_callback = None\<rparr>]\<rparr>"

text \<open>A meter with one unit left.\<close>

definition meter_store :: store where
  "meter_store = test_store\<lparr>meters :=
     [''12345678'' \<mapsto> \<lparr>m_user_id = Some 0, m_balance = Some 1\<rparr>]\<rparr>"

text \<open>Scenario D: a purchase of KSH 125 and six ticks.\<close>

definition scenario_D :: "event list" where
  "scenario_D = Purchase (Str ''12345678'') 125 ''SUCCESS'' Null # replicate 6 Tick"

text \<open>A purchase of KSH 20, which is 0.8 units, and ten ticks.\<close>

definition ten_ticks :: "event list" where
  "ten_ticks = Purchase (Str ''12345678'') 20 ''SUCCESS'' Null # replicate 10 Tick"

text \<open>The store after the purchase of either scenario.\<close>

definition purchase_store :: store where
  "purchase_store = step test_env (Purchase (Str ''12345678'') 125 ''SUCCESS'' Null) test_store"

definition twenty_store :: store where
  "twenty_store = step test_env (Purchase (Str ''12345678'') 20 ''SUCCESS'' Null) test_store"

section \<open>Properties of the rounding functions\<close>

lemma floor_rat_numeral [simp]:
  "\<lfloor>numeral a / numeral b :: rat\<rfloor> = numeral a div numeral b"
  by (metis floor_divide_of_int_eq of_int_numeral)

lemma floor_rat_neg_numeral [simp]:
  "\<lfloor>- (numeral a / numeral b) :: rat\<rfloor> = - numeral a div numeral b"
  by (metis divide_minus_left floor_divide_of_int_eq of_int_neg_numeral of_int_numeral)

lemma floor_rat_one_numeral [simp]:
  "\<lfloor>1 / numeral b :: rat\<rfloor> = 1 div numeral b"
  by (metis floor_divide_of_int_eq of_int_1 of_int_numeral)

lemma ceiling_rat_numeral [simp]:
  "\<lceil>numeral a / numeral b :: rat\<rceil> = - (- numeral a div numeral b)"
  by (metis ceiling_divide_eq_div of_int_numeral)

text \<open>Rules that let the simplifier compute \<open>binary64\<close> of a fraction of numerals.\<close>

lemma bitlen_1: "bitlen 1 = 1"
  by (subst compute_bitlen) simp

lemma bitlen_numeral: "bitlen (numeral n) = bitlen (numeral n div 2) + 1"
  by (subst compute_bitlen) simp

lemmas binary64_eval =
  binary64_def floor_log2_def pow2_def round_half_even_def Let_def
  bitlen_1 bitlen_numeral

lemma binary64_0 [simp]: "binary64 0 = 0"
  by (simp add: binary64_def)

lemma double_sum_Nil [simp]: "double_sum [] = 0"
  by (simp add: double_sum_def)

lemma double_sum_snoc: "double_sum (xs @ [x]) = binary64 (double_sum xs + binary64 x)"
  by (simp add: double_sum_def)

lemma half_up_mono: "x \<le> y \<Longrightarrow> half_up f x \<le> half_up f y"
  unfolding half_up_def
  by (intro divide_right_mono floor_mono add_right_mono mult_right_mono iffD2[OF of_int_le_iff]) simp_all

lemma half_up_nonneg: "0 \<le> x \<Longrightarrow> 0 \<le> half_up f x"
  unfolding half_up_def by (intro divide_nonneg_nonneg) simp_all

lemma toFixed_half_up: "toFixed f x = (if x < 0 then - half_up f (- x) else half_up f x)"
  by (simp add: toFixed_def half_up_def)

lemma toFixed_mono: "x \<le> y \<Longrightarrow> toFixed f x \<le> toFixed f y"
proof -
  assume xy: "x \<le> y"
  consider "y < 0" | "x < 0" "0 \<le> y" | "0 \<le> x" by linarith
  then show ?thesis
  proof cases
    case 1
    with xy have "half_up f (- y) \<le> half_up f (- x)" by (intro half_up_mono) simp
    with 1 xy show ?thesis by (simp add: toFixed_half_up)
  next
    case 2
    have "0 \<le> half_up f (- x)" "0 \<le> half_up f y"
      using 2 by (simp_all add: half_up_nonneg)
    with 2 show ?thesis by (simp add: toFixed_half_up)
  next
    case 3
    with xy show ?thesis by (simp add: toFixed_half_up half_up_mono)
  qed
qed

lemma toFixed_nonneg: "0 \<le> x \<Longrightarrow> 0 \<le> toFixed f x"
  by (simp add: toFixed_half_up half_up_nonneg)

lemma toFixed_0 [simp]: "toFixed f 0 = 0"
  by (simp add: toFixed_def)

lemma half_up2_round: "is_round2 x (half_up 2 x)"
proof -
  define n where "n = \<lfloor>x * 100 + 1 / 2\<rfloor>"
  have q: "half_up 2 x = of_int n / 100" by (simp add: half_up_def n_def)
  have lo: "of_int n \<le> x * 100 + 1 / 2" and hi: "x * 100 + 1 / 2 < of_int n + 1"
    unfolding n_def by linarith+
  have "of_int n / 100 - x \<le> 1 / 200" "- (1 / 200) \<le> of_int n / 100 - x"
    using lo hi by (simp_all add: field_simps)
  then have "\<bar>of_int n / 100 - x\<bar> \<le> 1 / 200" by linarith
  then show ?thesis unfolding is_round2_def q by simp
qed

lemma is_round2_neg: "is_round2 x q \<Longrightarrow> is_round2 (- x) (- q)"
proof -
  assume a: "is_round2 x q"
  then obtain k where k: "q * 100 = of_int k" by (auto simp: is_round2_def)
  have "- (q * 100) = of_int (- k)" using k by simp
  then have "\<exists>n. - (q * 100) = rat_of_int n" by blast
  moreover have "\<bar>x - q\<bar> \<le> 1 / 200" using a by (simp add: is_round2_def abs_minus_commute)
  ultimately show ?thesis by (simp add: is_round2_def)
qed

lemma toFixed2_round: "is_round2 x (toFixed 2 x)"
  using half_up2_round [of x] is_round2_neg [OF half_up2_round [of "- x"]]
  by (simp add: toFixed_half_up)

lemma toFixed2_tenth: "toFixed 2 (1 / 10) = 1 / 10"
  by (simp add: toFixed_def)

section \<open>Properties of the doubles\<close>

text \<open>\<open>floor_log2\<close> finds the binary exponent; rounding to a double is monotone, and a
  double rounds to itself.\<close>

lemma pow2_powi: "pow2 k = 2 powi k"
  by (simp add: pow2_def power_int_def inverse_eq_divide power_one_over)

lemma pow2_pos: "0 < pow2 k"
  by (simp add: pow2_def)

lemma pow2_mono: "k \<le> l \<Longrightarrow> pow2 k \<le> pow2 l"
  by (simp add: pow2_powi power_int_increasing)

lemma pow2_strict_mono: "k < l \<Longrightarrow> pow2 k < pow2 l"
  by (simp add: pow2_powi power_int_strict_increasing)

lemma pow2_add: "pow2 (k + l) = pow2 k * pow2 l"
  by (simp add: pow2_powi power_int_add)

lemma pow2_diff: "pow2 (k - l) = pow2 k / pow2 l"
  using pow2_add [of "k - l" l] pow2_pos [of l] by (simp add: field_simps)

lemma pow2_nat: "0 \<le> k \<Longrightarrow> pow2 k = 2 ^ nat k"
  by (simp add: pow2_def)

lemma pow2_minus: "pow2 (- k) = 1 / pow2 k"
  using pow2_diff [of 0 k] by (simp add: pow2_def)

lemma floor_log2_bounds:
  assumes "0 < x"
  shows "pow2 (floor_log2 x) \<le> x" and "x < pow2 (floor_log2 x + 1)"
proof -
  have "pow2 (floor_log2 x) \<le> x \<and> x < pow2 (floor_log2 x + 1)"
  proof (cases "1 \<le> x")
    case True
    define n where "n = \<lfloor>x\<rfloor>"
    have n: "1 \<le> n" using True by (simp add: n_def le_floor_iff)
    from bitlen_bounds [of n] n
    have b: "2 ^ nat (bitlen n - 1) \<le> n" "n < 2 ^ nat (bitlen n)" by simp_all
    have b1: "1 \<le> bitlen n" using n by (simp add: bitlen_alt_def)
    have f: "floor_log2 x = bitlen n - 1" using True by (simp add: floor_log2_def n_def)
    have "pow2 (bitlen n - 1) = of_int (2 ^ nat (bitlen n - 1))"
      using b1 by (simp add: pow2_nat)
    also have "\<dots> \<le> of_int n" using b(1) by (simp only: of_int_le_iff)
    also have "\<dots> \<le> x" by (simp add: n_def)
    finally have lo: "pow2 (bitlen n - 1) \<le> x" .
    have "x < of_int (n + 1)" unfolding n_def by simp linarith
    also have "\<dots> \<le> of_int (2 ^ nat (bitlen n))" using b(2) by (simp only: of_int_le_iff)
    also have "\<dots> = pow2 (bitlen n)" using b1 by (simp add: pow2_nat)
    finally have hi: "x < pow2 (bitlen n)" .
    from lo hi show ?thesis by (simp add: f)
  next
    case False
    define y where "y = 1 / x"
    define k where "k = \<lceil>y\<rceil> - 1"
    have y: "1 < y" using False assms by (simp add: y_def)
    have k: "1 \<le> k" using y by (simp add: k_def less_ceiling_iff)
    have ky: "of_int k < y" "y \<le> of_int (k + 1)"
      by (simp_all add: k_def) (linarith)+
    from bitlen_bounds [of k] k
    have b: "2 ^ nat (bitlen k - 1) \<le> k" "k < 2 ^ nat (bitlen k)" by simp_all
    have b1: "1 \<le> bitlen k" using k by (simp add: bitlen_alt_def)
    have f: "floor_log2 x = - bitlen k" using False by (simp add: floor_log2_def k_def y_def)
    have "y \<le> of_int (2 ^ nat (bitlen k))"
      using ky(2) b(2) by (metis of_int_le_iff order_trans zless_imp_add1_zle)
    also have "\<dots> = pow2 (bitlen k)" using b1 by (simp add: pow2_nat)
    finally have "y \<le> pow2 (bitlen k)" .
    then have "1 / pow2 (bitlen k) \<le> 1 / y"
      using pow2_pos [of "bitlen k"] y
      by (intro divide_left_mono) simp_all
    then have lo: "pow2 (- bitlen k) \<le> x"
      by (simp add: pow2_minus y_def)
    have "pow2 (bitlen k - 1) = of_int (2 ^ nat (bitlen k - 1))"
      using b1 by (simp add: pow2_nat)
    also have "\<dots> \<le> of_int k" using b(1) by (simp only: of_int_le_iff)
    also have "\<dots> < y" by (rule ky(1))
    finally have "pow2 (bitlen k - 1) < y" .
    then have "1 / y < 1 / pow2 (bitlen k - 1)"
      using pow2_pos [of "bitlen k - 1"] y
      by (intro divide_strict_left_mono) simp_all
    also have "1 / y = x" by (simp add: y_def)
    also have "1 / pow2 (bitlen k - 1) = pow2 (- bitlen k + 1)"
      using pow2_minus [of "bitlen k - 1"] by simp
    finally have hi: "x < pow2 (- bitlen k + 1)" .
    from lo hi show ?thesis by (simp add: f)
  qed
  then show "pow2 (floor_log2 x) \<le> x" and "x < pow2 (floor_log2 x + 1)" by simp_all
qed

lemma floor_log2_unique:
  assumes "pow2 k \<le> x" "x < pow2 (k + 1)"
  shows "floor_log2 x = k"
proof -
  have x: "0 < x" using assms(1) pow2_pos [of k] by linarith
  note b = floor_log2_bounds [OF x]
  have "\<not> floor_log2 x < k"
  proof
    assume "floor_log2 x < k"
    then have "pow2 (floor_log2 x + 1) \<le> pow2 k" by (intro pow2_mono) simp
    with b(2) assms(1) show False by linarith
  qed
  moreover have "\<not> k < floor_log2 x"
  proof
    assume "k < floor_log2 x"
    then have "pow2 (k + 1) \<le> pow2 (floor_log2 x)" by (intro pow2_mono) simp
    with b(1) assms(2) show False by linarith
  qed
  ultimately show ?thesis by linarith
qed

lemma floor_log2_mono:
  assumes "0 < x" "x \<le> y"
  shows "floor_log2 x \<le> floor_log2 y"
proof (rule ccontr)
  assume "\<not> floor_log2 x \<le> floor_log2 y"
  then have "pow2 (floor_log2 y + 1) \<le> pow2 (floor_log2 x)" by (intro pow2_mono) simp
  moreover have "0 < y" using assms by linarith
  ultimately show False
    using floor_log2_bounds(1) [OF assms(1)] floor_log2_bounds(2) [of y] assms(2) by linarith
qed

lemma round_half_even_of_int [simp]: "round_half_even (of_int n) = n"
  by (simp add: round_half_even_def)

lemma round_half_even_cases:
  "round_half_even y = \<lfloor>y\<rfloor> \<or> round_half_even y = \<lfloor>y\<rfloor> + 1"
  by (simp add: round_half_even_def Let_def)

lemma round_half_even_mono:
  assumes "y \<le> z"
  shows "round_half_even y \<le> round_half_even z"
proof (cases "\<lfloor>y\<rfloor> = \<lfloor>z\<rfloor>")
  case True
  have "y - of_int \<lfloor>y\<rfloor> \<le> z - of_int \<lfloor>z\<rfloor>" using assms True by simp
  then show ?thesis using True by (auto simp: round_half_even_def Let_def)
next
  case False
  then have "\<lfloor>y\<rfloor> + 1 \<le> \<lfloor>z\<rfloor>" using floor_mono [OF assms] by linarith
  moreover have "round_half_even y \<le> \<lfloor>y\<rfloor> + 1" "\<lfloor>z\<rfloor> \<le> round_half_even z"
    using round_half_even_cases [of y] round_half_even_cases [of z] by auto
  ultimately show ?thesis by linarith
qed


lemma round_half_even_nonneg: "0 \<le> y \<Longrightarrow> 0 \<le> round_half_even y"
  using round_half_even_mono [of 0 y] round_half_even_of_int [of 0] by simp

lemma binary64_pos:
  "0 < x \<Longrightarrow> binary64 x =
     of_int (round_half_even (x / pow2 (max (floor_log2 x) (- 1022) - 52))) *
     pow2 (max (floor_log2 x) (- 1022) - 52)"
  by (simp add: binary64_def Let_def)

lemma binary64_minus: "binary64 (- x) = - binary64 x"
  by (simp add: binary64_def Let_def)

lemma binary64_nonneg: "0 \<le> x \<Longrightarrow> 0 \<le> binary64 x"
proof (cases "x = 0")
  case True
  then show ?thesis by (simp add: binary64_def)
next
  case False
  assume "0 \<le> x"
  with False have x: "0 < x" by simp
  have "0 \<le> x / pow2 (max (floor_log2 x) (- 1022) - 52)"
    using x pow2_pos [of "max (floor_log2 x) (- 1022) - 52"] by simp
  then show ?thesis
    using pow2_pos [of "max (floor_log2 x) (- 1022) - 52"]
    by (simp add: binary64_pos [OF x] round_half_even_nonneg)
qed

lemma binary64_upper:
  assumes "0 < x"
  shows "binary64 x \<le> pow2 (max (floor_log2 x) (- 1022) + 1)"
proof -
  define E where "E = max (floor_log2 x) (- 1022)"
  define u where "u = pow2 (E - 52)"
  have u: "0 < u" by (simp add: u_def pow2_pos)
  have "x < pow2 (floor_log2 x + 1)" using assms by (rule floor_log2_bounds)
  also have "\<dots> \<le> pow2 (E + 1)" by (intro pow2_mono) (simp add: E_def)
  finally have "x / u \<le> pow2 (E + 1) / u" using u by (simp add: divide_right_mono)
  also have "pow2 (E + 1) / u = pow2 53"
    using pow2_diff [of "E + 1" "E - 52"] by (simp add: u_def)
  also have "pow2 53 = of_int (2 ^ 53)" by (simp add: pow2_def)
  finally have "round_half_even (x / u) \<le> round_half_even (of_int (2 ^ 53))"
    by (rule round_half_even_mono)
  then have "round_half_even (x / u) \<le> 2 ^ 53" by (simp only: round_half_even_of_int)
  then have "(of_int (round_half_even (x / u)) :: rat) \<le> of_int (2 ^ 53)"
    by (simp only: of_int_le_iff)
  then have "of_int (round_half_even (x / u)) * u \<le> of_int (2 ^ 53) * u"
    using u by (simp only: mult_le_cancel_right_pos)
  also have "of_int (2 ^ 53) * u = pow2 53 * pow2 (E - 52)" by (simp add: pow2_def u_def)
  also have "\<dots> = pow2 (E + 1)" using pow2_add [of 53 "E - 52"] by (simp add: add.commute)
  finally show ?thesis
    by (simp add: binary64_pos [OF assms] E_def u_def)
qed

lemma binary64_lower:
  assumes "0 < x" "- 1022 \<le> floor_log2 x"
  shows "pow2 (floor_log2 x) \<le> binary64 x"
proof -
  define E where "E = floor_log2 x"
  define u where "u = pow2 (E - 52)"
  have u: "0 < u" by (simp add: u_def pow2_pos)
  have m: "max (floor_log2 x) (- 1022) = E" using assms(2) by (simp add: E_def)
  have "pow2 52 = pow2 E / u" using pow2_diff [of E "E - 52"] by (simp add: u_def)
  also have "\<dots> \<le> x / u"
    using floor_log2_bounds(1) [OF assms(1)] u by (simp add: E_def divide_right_mono)
  finally have "of_int (2 ^ 52) \<le> x / u" by (simp add: pow2_def)
  then have "round_half_even (of_int (2 ^ 52)) \<le> round_half_even (x / u)"
    by (rule round_half_even_mono)
  then have "2 ^ 52 \<le> round_half_even (x / u)" by (simp only: round_half_even_of_int)
  then have "(of_int (2 ^ 52) :: rat) \<le> of_int (round_half_even (x / u))"
    by (simp only: of_int_le_iff)
  then have "of_int (2 ^ 52) * u \<le> of_int (round_half_even (x / u)) * u"
    using u by (simp only: mult_le_cancel_right_pos)
  moreover have "of_int (2 ^ 52) * u = pow2 52 * pow2 (E - 52)" by (simp add: pow2_def u_def)
  moreover have "pow2 52 * pow2 (E - 52) = pow2 E" using pow2_add [of 52 "E - 52"] by simp
  ultimately show ?thesis
    by (simp add: binary64_pos [OF assms(1)] m) (simp add: E_def u_def)
qed

lemma binary64_mono_pos:
  assumes "0 < x" "x \<le> y"
  shows "binary64 x \<le> binary64 y"
proof -
  have y: "0 < y" using assms by linarith
  define Ex where "Ex = max (floor_log2 x) (- 1022)"
  define Ey where "Ey = max (floor_log2 y) (- 1022)"
  have le: "Ex \<le> Ey"
    using floor_log2_mono [OF assms] by (simp add: Ex_def Ey_def)
  show ?thesis
  proof (cases "Ex = Ey")
    case True
    have "x / pow2 (Ey - 52) \<le> y / pow2 (Ey - 52)"
      using assms(2) pow2_pos [of "Ey - 52"] by (simp add: divide_right_mono)
    then have "round_half_even (x / pow2 (Ey - 52)) \<le> round_half_even (y / pow2 (Ey - 52))"
      by (rule round_half_even_mono)
    then have "of_int (round_half_even (x / pow2 (Ey - 52))) * pow2 (Ey - 52) \<le>
        of_int (round_half_even (y / pow2 (Ey - 52))) * pow2 (Ey - 52)"
      using pow2_pos [of "Ey - 52"] by (simp add: mult_le_cancel_right_pos)
    then show ?thesis
      using True by (simp add: binary64_pos [OF assms(1)] binary64_pos [OF y] Ex_def Ey_def)
  next
    case False
    with le have lt: "Ex < Ey" by simp
    have "- 1022 \<le> Ex" by (simp add: Ex_def)
    with lt have fy: "floor_log2 y = Ey" "- 1022 \<le> floor_log2 y"
      by (simp_all add: Ey_def max_def split: if_splits)
    have "binary64 x \<le> pow2 (Ex + 1)"
      using binary64_upper [OF assms(1)] by (simp add: Ex_def)
    also have "\<dots> \<le> pow2 Ey" using lt by (intro pow2_mono) simp
    also have "\<dots> \<le> binary64 y" using binary64_lower [OF y fy(2)] by (simp add: fy(1))
    finally show ?thesis .
  qed
qed

lemma binary64_mono:
  assumes "x \<le> y"
  shows "binary64 x \<le> binary64 y"
proof -
  consider "0 < x" | "x \<le> 0" "0 \<le> y" | "y < 0" by linarith
  then show ?thesis
  proof cases
    case 1
    then show ?thesis using assms by (rule binary64_mono_pos)
  next
    case 2
    have "0 \<le> binary64 (- x)" using 2(1) by (intro binary64_nonneg) simp
    then have "binary64 x \<le> 0" by (simp add: binary64_minus)
    also have "0 \<le> binary64 y" using 2(2) by (rule binary64_nonneg)
    finally show ?thesis .
  next
    case 3
    then have "binary64 (- y) \<le> binary64 (- x)"
      using assms by (intro binary64_mono_pos) simp_all
    then show ?thesis by (simp add: binary64_minus)
  qed
qed

lemma binary64_of_multiple:
  assumes "0 < v" "v / pow2 (max (floor_log2 v) (- 1022) - 52) = of_int N"
  shows "binary64 v = v"
proof -
  have "v = of_int N * pow2 (max (floor_log2 v) (- 1022) - 52)"
    using assms(2) pow2_pos [of "max (floor_log2 v) (- 1022) - 52"] by (simp add: field_simps)
  then show ?thesis
    by (simp add: binary64_pos [OF assms(1)] assms(2))
qed

lemma binary64_idem_pos:
  assumes "0 < x"
  shows "binary64 (binary64 x) = binary64 x"
proof -
  define E where "E = max (floor_log2 x) (- 1022)"
  define m where "m = round_half_even (x / pow2 (E - 52))"
  define v where "v = binary64 x"
  have v: "v = of_int m * pow2 (E - 52)"
    by (simp add: v_def binary64_pos [OF assms] E_def m_def)
  have E: "- 1022 \<le> E" by (simp add: E_def)
  have v0: "0 \<le> v" using assms by (simp add: v_def binary64_nonneg)
  show ?thesis
  proof (cases "v = 0")
    case True
    have b0: "binary64 0 = 0" by (simp add: binary64_def)
    from True have "binary64 x = 0" by (simp add: v_def)
    then show ?thesis by (simp only: b0)
  next
    case False
    with v0 have vp: "0 < v" by simp
    define Ev where "Ev = max (floor_log2 v) (- 1022)"
    have "\<exists>N. v / pow2 (Ev - 52) = of_int N"
    proof (cases "Ev \<le> E")
      case True
      have "v / pow2 (Ev - 52) = of_int m * (pow2 (E - 52) / pow2 (Ev - 52))"
        by (simp add: v)
      also have "pow2 (E - 52) / pow2 (Ev - 52) = pow2 (E - Ev)"
        using pow2_diff [of "E - 52" "Ev - 52"] by simp
      also have "pow2 (E - Ev) = of_int (2 ^ nat (E - Ev))"
        using True by (simp add: pow2_nat)
      finally have "v / pow2 (Ev - 52) = of_int (m * 2 ^ nat (E - Ev))" by simp
      then show ?thesis by blast
    next
      case False
      then have lt: "E < Ev" by simp
      with E have fv: "floor_log2 v = Ev"
        by (simp add: Ev_def max_def split: if_splits)
      have "pow2 (E + 1) \<le> pow2 Ev" using lt by (intro pow2_mono) simp
      also have "\<dots> \<le> v" using floor_log2_bounds(1) [OF vp] by (simp add: fv)
      finally have "pow2 (E + 1) \<le> v" .
      moreover have "v \<le> pow2 (E + 1)"
        using binary64_upper [OF assms] by (simp add: v_def E_def)
      ultimately have ve: "v = pow2 (E + 1)" by simp
      have "floor_log2 v = E + 1"
        unfolding ve by (rule floor_log2_unique) (simp_all add: pow2_strict_mono)
      with fv have "Ev = E + 1" by simp
      then have "v / pow2 (Ev - 52) = pow2 (E + 1) / pow2 (E + 1 - 52)" by (simp add: ve)
      also have "\<dots> = pow2 52" using pow2_diff [of "E + 1" "E + 1 - 52"] by simp
      also have "\<dots> = of_int (2 ^ 52)" by (simp add: pow2_def)
      finally show ?thesis by blast
    qed
    then obtain N where "v / pow2 (Ev - 52) = of_int N" by blast
    then have "binary64 v = v"
      using binary64_of_multiple [OF vp, of N] by (simp add: Ev_def)
    then show ?thesis by (simp add: v_def)
  qed
qed

lemma binary64_idem: "binary64 (binary64 x) = binary64 x"
proof -
  consider "0 < x" | "x = 0" | "x < 0" by linarith
  then show ?thesis
  proof cases
    case 1
    then show ?thesis by (rule binary64_idem_pos)
  next
    case 2
    then show ?thesis by (simp add: binary64_def)
  next
    case 3
    then have "binary64 (binary64 (- x)) = binary64 (- x)" by (intro binary64_idem_pos) simp
    then show ?thesis by (simp add: binary64_minus)
  qed
qed

section \<open>Properties of the store operations\<close>

lemma find_key_Some:
  "find_key P xs = Some k \<Longrightarrow> k < length xs \<and> P (xs ! k) \<and> (\<forall>j<k. \<not> P (xs ! j))"
proof (induction xs arbitrary: k)
  case Nil
  then show ?case by simp
next
  case (Cons x xs)
  show ?case
  proof (cases "P x")
    case True
    with Cons.prems show ?thesis by simp
  next
    case False
    with Cons.prems obtain k' where k': "find_key P xs = Some k'" "k = Suc k'" by auto
    from Cons.IH [OF k'(1)] False k'(2) show ?thesis
      by (auto simp: less_Suc_eq_0_disj)
  qed
qed

lemma find_key_None: "find_key P xs = None \<longleftrightarrow> (\<forall>x\<in>set xs. \<not> P x)"
  by (induction xs) auto

lemma find_key_map: "find_key P (map f xs) = find_key (\<lambda>x. P (f x)) xs"
  by (induction xs) auto

lemma update_at_length [simp]: "length (update_at k f xs) = length xs"
  by (simp add: update_at_def)

lemma update_at_map: "(\<And>x. g (f x) = g x) \<Longrightarrow> map g (update_at k f xs) = map g xs"
  by (simp add: update_at_def map_update list_update_same_conv)

lemma update_user_simps [simp]:
  "transactions (update_user k f s) = transactions s"
  "unit_consumption (update_user k f s) = unit_consumption s"
  "meters (update_user k f s) = meters s"
  "users (update_user k f s) = update_at k f (users s)"
  by (simp_all add: update_user_def)

lemma findUserIdByMeter_cong:
  "map u_meter_no (users s') = map u_meter_no (users s) \<Longrightarrow>
   findUserIdByMeter s' meterNo = findUserIdByMeter s meterNo"
proof -
  have "findUserIdByMeter t meterNo = find_key (\<lambda>x. x = meterNo) (map u_meter_no (users t))" for t
    by (simp add: findUserIdByMeter_def find_key_map)
  then show "map u_meter_no (users s') = map u_meter_no (users s) \<Longrightarrow> ?thesis" by simp
qed

subsection \<open>The sums of the balance\<close>

lemma fold_cond_add:
  "fold (\<lambda>x total. if P x then total + g x else total) xs (a::rat) =
   a + sum_list (map g (filter P xs))"
  by (induction xs arbitrary: a) simp_all

lemma fold_add:
  "fold (\<lambda>x total. total + g x) xs (a::rat) = a + sum_list (map g xs)"
  by (induction xs arbitrary: a) simp_all

lemma totalPurchasedUnits_sum: "totalPurchasedUnits s userId = purchased_units s userId"
  unfolding totalPurchasedUnits_def purchased_units_def transaction_units_def
  by (simp add: fold_cond_add)

lemma totalConsumedUnits_sum: "totalConsumedUnits s userId = consumed_units s userId"
  unfolding totalConsumedUnits_def consumed_units_def
  by (simp add: fold_add)

lemma calculateAvailableUnits_nonneg: "0 \<le> calculateAvailableUnits s userId"
  by (simp add: calculateAvailableUnits_def toFixed_nonneg)


subsection \<open>Callbacks\<close>

lemma resultCode_of_not_0: "resultCode_of callbackData \<noteq> Num 0"
  by (auto simp: resultCode_of_def js_or_def)

lemma transactionExists_iff:
  "transactionExists s r \<longleftrightarrow> truthy r \<and> (\<exists>t\<in>set (transactions s). t_mpesa_receipt t = r)"
  by (auto simp: transactionExists_def list_ex_iff)

lemma saveCallbackTransaction_no_billref:
  "\<not> truthy (billRefNumber_of p) \<Longrightarrow>
   saveCallbackTransaction e s p =
     (\<lparr>success = False, duplicate = False, r_message = Error_message BillRefNumber_required,
       r_transaction_id = None, r_status = None\<rparr>, s)"
  by (simp add: saveCallbackTransaction_def)

lemma saveCallbackTransaction_duplicate:
  "truthy (billRefNumber_of p) \<Longrightarrow> transactionExists s (mpesaReceiptNumber_of p) \<Longrightarrow>
   saveCallbackTransaction e s p =
     (\<lparr>success = True, duplicate = True, r_message = Already_processed,
       r_transaction_id = None, r_status = None\<rparr>, s)"
  by (simp add: saveCallbackTransaction_def transactionExists_iff)

lemma saveCallbackTransaction_no_user:
  "truthy (billRefNumber_of p) \<Longrightarrow> \<not> transactionExists s (mpesaReceiptNumber_of p) \<Longrightarrow>
   findUserIdByMeter s (billRefNumber_of p) = None \<Longrightarrow>
   saveCallbackTransaction e s p =
     (\<lparr>success = False, duplicate = False,
       r_message = Error_message (No_user_found (billRefNumber_of p)),
       r_transaction_id = None, r_status = None\<rparr>, s)"
  by (simp add: saveCallbackTransaction_def transactionExists_iff Let_def)

lemma saveCallbackTransaction_update:
  assumes "truthy (billRefNumber_of p)" "\<not> transactionExists s (mpesaReceiptNumber_of p)"
    "findUserIdByMeter s (billRefNumber_of p) = Some userId"
    "truthy (conversationId_of p)" "findTransactionByReference s (conversationId_of p) = Some k"
  shows "saveCallbackTransaction e s p =
     (\<lparr>success = True, duplicate = False, r_message = Processed ''FAILED'',
       r_transaction_id = Some k, r_status = Some ''FAILED''\<rparr>,
      s\<lparr>transactions := update_at k
          (callback_fields (resultCode_of p) (resultDesc_of p) (mpesaReceiptNumber_of p)
             (phoneNumber_of p) ''FAILED'' (formattedTimestamp e (transactionDate_of e p)) p)
          (transactions s)\<rparr>)"
  using assms by (simp add: saveCallbackTransaction_def Let_def resultCode_of_not_0)

lemma saveCallbackTransaction_create:
  assumes "truthy (billRefNumber_of p)" "\<not> transactionExists s (mpesaReceiptNumber_of p)"
    "findUserIdByMeter s (billRefNumber_of p) = Some userId"
    "findTransactionByReference s (conversationId_of p) = None"
  shows "saveCallbackTransaction e s p =
     (\<lparr>success = True, duplicate = False, r_message = Processed ''FAILED'',
       r_transaction_id = Some (length (transactions s)), r_status = Some ''FAILED''\<rparr>,
      s\<lparr>transactions := transactions s @
          [\<lparr>t_user_id = userId, t_meter_no = billRefNumber_of p, t_amount = amount_of e p,
            t_units = None, t_remainder = None, t_status = ''FAILED'',
            t_timestamp = formattedTimestamp e (transactionDate_of e p), t_reference = Null,
            t_mpesa_receipt = js_or (mpesaReceiptNumber_of p) Null,
            t_phone_number = js_or (phoneNumber_of p) Null,
            t_result_code = resultCode_of p, t_result_desc = resultDesc_of p,
            t_raw_callback = Some p\<rparr>]\<rparr>)"
  using assms by (simp add: saveCallbackTransaction_def Let_def resultCode_of_not_0)

lemma filter_update_single:
  assumes "\<forall>x\<in>set xs. \<not> Q x" "k < length xs" "Q y"
  shows "filter Q (xs[k := y]) = [y]"
proof -
  have "xs[k := y] = take k xs @ y # drop (Suc k) xs"
    using assms(2) by (rule upd_conv_take_nth_drop)
  moreover have "filter Q (take k xs) = []"
    using assms(1) by (auto simp: filter_empty_conv dest: in_set_takeD)
  moreover have "filter Q (drop (Suc k) xs) = []"
    using assms(1) by (auto simp: filter_empty_conv dest: in_set_dropD)
  ultimately show ?thesis using assms(3) by simp
qed

lemma findTransactionByReference_Some:
  "findTransactionByReference s r = Some k \<Longrightarrow>
   truthy r \<and> k < length (transactions s) \<and> t_reference (transactions s ! k) = r"
  by (auto simp: findTransactionByReference_def split: if_splits dest: find_key_Some)

lemma findTransactionByReference_None:
  "findTransactionByReference s r = None \<longleftrightarrow>
   \<not> truthy r \<or> (\<forall>t\<in>set (transactions s). t_reference t \<noteq> r)"
  by (auto simp: findTransactionByReference_def find_key_None)

lemma js_or_Null_truthy: "truthy v \<Longrightarrow> js_or v Null = v"
  by (simp add: js_or_def)

text \<open>What a callback that is processed does to the store: it updates the transaction
  that its conversation id finds, or appends a new one.\<close>

lemma saveCallbackTransaction_success_cases:
  assumes "saveCallbackTransaction e s p = (r, s')" "success r" "\<not> duplicate r"
  obtains (update) userId k where
      "truthy (billRefNumber_of p)" "\<not> transactionExists s (mpesaReceiptNumber_of p)"
      "findUserIdByMeter s (billRefNumber_of p) = Some userId"
      "findTransactionByReference s (conversationId_of p) = Some k"
      "r_transaction_id r = Some k"
      "s' = s\<lparr>transactions := update_at k
          (callback_fields (resultCode_of p) (resultDesc_of p) (mpesaReceiptNumber_of p)
             (phoneNumber_of p) ''FAILED'' (formattedTimestamp e (transactionDate_of e p)) p)
          (transactions s)\<rparr>"
    | (create) userId where
      "truthy (billRefNumber_of p)" "\<not> transactionExists s (mpesaReceiptNumber_of p)"
      "findUserIdByMeter s (billRefNumber_of p) = Some userId"
      "findTransactionByReference s (conversationId_of p) = None"
      "r_transaction_id r = Some (length (transactions s))"
      "s' = s\<lparr>transactions := transactions s @
          [\<lparr>t_user_id = userId, t_meter_no = billRefNumber_of p, t_amount = amount_of e p,
            t_units = None, t_remainder = None, t_status = ''FAILED'',
            t_timestamp = formattedTimestamp e (transactionDate_of e p), t_reference = Null,
            t_mpesa_receipt = js_or (mpesaReceiptNumber_of p) Null,
            t_phone_number = js_or (phoneNumber_of p) Null,
            t_result_code = resultCode_of p, t_result_desc = resultDesc_of p,
            t_raw_callback = Some p\<rparr>]\<rparr>"
proof -
  have b: "truthy (billRefNumber_of p)"
    using assms saveCallbackTransaction_no_billref [of p e s] by (cases "truthy (billRefNumber_of p)") auto
  have d: "\<not> transactionExists s (mpesaReceiptNumber_of p)"
    using assms b saveCallbackTransaction_duplicate [of p s e] by auto
  obtain userId where u: "findUserIdByMeter s (billRefNumber_of p) = Some userId"
    using assms b d saveCallbackTransaction_no_user [of p s e]
    by (cases "findUserIdByMeter s (billRefNumber_of p)") auto
  show thesis
  proof (cases "findTransactionByReference s (conversationId_of p)")
    case None
    from saveCallbackTransaction_create [OF b d u None, of e] assms(1)
    show thesis by (intro create [OF b d u None]) auto
  next
    case (Some k)
    then have "truthy (conversationId_of p)" by (simp add: findTransactionByReference_Some)
    from saveCallbackTransaction_update [OF b d u this Some, of e] assms(1)
    show thesis by (intro update [OF b d u Some]) auto
  qed
qed

subsection \<open>The rate of a tick\<close>

lemma binary64_consumptionRate:
  "binary64 consumptionRate = 3602879701896397 / 36028797018963968"
  by (simp add: consumptionRate_def binary64_eval)

lemma toFixed2_consumptionRate: "toFixed 2 (binary64 consumptionRate) = 1 / 10"
  by (simp add: binary64_consumptionRate toFixed_def)

subsection \<open>A tick on the lists of a user\<close>

lemma fold_purchased:
  "fold (\<lambda>t total. if P t then binary64 (total + binary64 (g t)) else total) (filter Q ts) a =
   fold (\<lambda>x total. binary64 (total + binary64 x)) (map g (filter (\<lambda>t. Q t \<and> P t) ts)) a"
  by (induction ts arbitrary: a) simp_all

lemma fold_consumed:
  "fold (\<lambda>c total. binary64 (total + binary64 (g c))) (filter Q cs) a =
   fold (\<lambda>x total. binary64 (total + binary64 x)) (map g (filter Q cs)) a"
  by (induction cs arbitrary: a) simp_all

lemma service_calculateAvailableUnits_double_lists:
  "service_calculateAvailableUnits_double s userId =
     max 0 (binary64 (double_sum (purchased_list s userId) - double_sum (consumed_list s userId)))"
  unfolding service_calculateAvailableUnits_double_def Let_def
  by (simp only: transaction_units_def [symmetric] fold_purchased fold_consumed
      double_sum_def purchased_list_def consumed_list_def)

lemma service_calculateAvailableUnits_double_is_double:
  "binary64 (service_calculateAvailableUnits_double s userId) =
     service_calculateAvailableUnits_double s userId"
  by (simp add: service_calculateAvailableUnits_double_lists max_def binary64_idem)

lemma consumeUnitsForUser_skip:
  "service_calculateAvailableUnits_double s userId \<le> 0 \<Longrightarrow> consumeUnitsForUser e s userId = s"
  by (simp add: consumeUnitsForUser_def)

lemma consumeUnitsForUser_record:
  "0 < service_calculateAvailableUnits_double s userId \<Longrightarrow>
   consumeUnitsForUser e s userId =
     recordUnitConsumption e s userId
       (min (binary64 consumptionRate) (service_calculateAvailableUnits_double s userId))
       (service_calculateAvailableUnits_double s userId)
       (max 0 (binary64 (service_calculateAvailableUnits_double s userId -
          min (binary64 consumptionRate) (service_calculateAvailableUnits_double s userId))))"
  by (simp add: consumeUnitsForUser_def Let_def)

lemma recordUnitConsumption_simps:
  "unit_consumption (recordUnitConsumption e s userId c b a) = unit_consumption s @
     [\<lparr>c_user_id = Some userId, c_meter_no = None, c_units_consumed = toFixed 2 c,
       c_units_before = toFixed 2 b, c_units_after = toFixed 2 a,
       c_consumption_rate = Some consumptionRate,
       c_timestamp = Str (now e), c_type = Some ''automatic_consumption''\<rparr>]"
  "users (recordUnitConsumption e s userId c b a) = update_at userId
     (\<lambda>u. u\<lparr>u_current_units := Some (toFixed 2 a),
             u_last_consumption_timestamp := Some (now e),
             u_last_consumption_amount := Some (toFixed 2 c)\<rparr>) (users s)"
  "transactions (recordUnitConsumption e s userId c b a) = transactions s"
  "meters (recordUnitConsumption e s userId c b a) = meters s"
  by (simp_all add: recordUnitConsumption_def Let_def)

lemma consumeUnitsForUser_lists:
  "consumed_list (consumeUnitsForUser e s userId) userId =
     tick_consumed (purchased_list s userId) (consumed_list s userId)"
  "purchased_list (consumeUnitsForUser e s userId) userId' = purchased_list s userId'"
  "length (users (consumeUnitsForUser e s userId)) = length (users s)"
proof -
  let ?A = "service_calculateAvailableUnits_double s userId"
  show "consumed_list (consumeUnitsForUser e s userId) userId =
     tick_consumed (purchased_list s userId) (consumed_list s userId)"
  proof (cases "?A \<le> 0")
    case True
    then show ?thesis
      using True [unfolded service_calculateAvailableUnits_double_lists]
      by (simp add: consumeUnitsForUser_skip tick_consumed_def Let_def)
  next
    case False
    then have pos: "0 < ?A" by simp
    show ?thesis
      using pos [unfolded service_calculateAvailableUnits_double_lists]
      by (simp add: consumeUnitsForUser_record [OF pos] recordUnitConsumption_simps
          consumed_list_def tick_consumed_def Let_def
          service_calculateAvailableUnits_double_lists [unfolded consumed_list_def])
  qed
  show "purchased_list (consumeUnitsForUser e s userId) userId' = purchased_list s userId'"
    by (cases "?A \<le> 0")
       (simp_all add: consumeUnitsForUser_skip consumeUnitsForUser_record
         recordUnitConsumption_simps purchased_list_def)
  show "length (users (consumeUnitsForUser e s userId)) = length (users s)"
    by (cases "?A \<le> 0")
       (simp_all add: consumeUnitsForUser_skip consumeUnitsForUser_record
         recordUnitConsumption_simps)
qed

lemma step_Tick_single_user:
  assumes "length (users s) = 1"
  shows "consumed_list (step e Tick s) 0 = tick_consumed (purchased_list s 0) (consumed_list s 0)"
    and "purchased_list (step e Tick s) 0 = purchased_list s 0"
    and "length (users (step e Tick s)) = 1"
  using assms by (simp_all add: consumeUnitsForAllUsers_def consumeUnitsForUser_lists)

lemma run_ticks_single_user:
  assumes "length (users s) = 1"
  shows "consumed_list (run e (replicate n Tick) s) 0 =
           (tick_consumed (purchased_list s 0) ^^ n) (consumed_list s 0) \<and>
         purchased_list (run e (replicate n Tick) s) 0 = purchased_list s 0 \<and>
         length (users (run e (replicate n Tick) s)) = 1"
  using assms
proof (induction n arbitrary: s)
  case 0
  then show ?case by (simp add: run_def)
next
  case (Suc n)
  have r: "run e (replicate (Suc n) Tick) s = run e (replicate n Tick) (step e Tick s)"
    by (simp add: run_def)
  note st = step_Tick_single_user [OF Suc.prems, of e]
  from Suc.IH [OF st(3)] show ?case
    by (simp only: r st funpow_Suc_right o_apply) 
qed

lemma consumed_units_list: "consumed_units s userId = sum_list (consumed_list s userId)"
  by (simp add: consumed_units_def consumed_list_def)

text \<open>Six ticks with 5 units, and ten ticks with 0.8 units: the sum of eight doubles
  \<open>0.1\<close> is just below the double \<open>0.8\<close>, so the ninth and the tenth tick still find
  something and record 0.00 units.\<close>

lemma six_ticks_of_5:
  "(tick_consumed [5] ^^ 6) [] =
     [1 / 10, 1 / 10, 1 / 10, 1 / 10, 1 / 10, 1 / 10]"
proof -
  have P: "double_sum [5] = 5"
    by (simp add: double_sum_def binary64_eval)
  have C0: "double_sum [] = 0"
    by simp
  have t1: "tick_consumed [5] [] =
      [1 / 10]"
    unfolding tick_consumed_def P C0 binary64_consumptionRate Let_def
    by (simp add: binary64_eval toFixed_def)
  have C1: "double_sum [1 / 10] = 3602879701896397 / 36028797018963968"
    unfolding double_sum_snoc [of "[]" "1 / 10", simplified] C0
    by (simp add: binary64_eval)
  have t2: "tick_consumed [5] [1 / 10] =
      [1 / 10, 1 / 10]"
    unfolding tick_consumed_def P C1 binary64_consumptionRate Let_def
    by (simp add: binary64_eval toFixed_def)
  have C2: "double_sum [1 / 10, 1 / 10] = 3602879701896397 / 18014398509481984"
    unfolding double_sum_snoc [of "[1 / 10]" "1 / 10", simplified] C1
    by (simp add: binary64_eval)
  have t3: "tick_consumed [5] [1 / 10, 1 / 10] =
      [1 / 10, 1 / 10, 1 / 10]"
    unfolding tick_consumed_def P C2 binary64_consumptionRate Let_def
    by (simp add: binary64_eval toFixed_def)
  have C3: "double_sum [1 / 10, 1 / 10, 1 / 10] = 1351079888211149 / 4503599627370496"
    unfolding double_sum_snoc [of "[1 / 10, 1 / 10]" "1 / 10", simplified] C2
    by (simp add: binary64_eval)
  have t4: "tick_consumed [5] [1 / 10, 1 / 10, 1 / 10] =
      [1 / 10, 1 / 10, 1 / 10, 1 / 10]"
    unfolding tick_consumed_def P C3 binary64_consumptionRate Let_def
    by (simp add: binary64_eval toFixed_def)
  have C4: "double_sum [1 / 10, 1 / 10, 1 / 10, 1 / 10] = 3602879701896397 / 9007199254740992"
    unfolding double_sum_snoc [of "[1 / 10, 1 / 10, 1 / 10]" "1 / 10", simplified] C3
    by (simp add: binary64_eval)
  have t5: "tick_consumed [5] [1 / 10, 1 / 10, 1 / 10, 1 / 10] =
      [1 / 10, 1 / 10, 1 / 10, 1 / 10, 1 / 10]"
    unfolding tick_consumed_def P C4 binary64_consumptionRate Let_def
    by (simp add: binary64_eval toFixed_def)
  have C5: "double_sum [1 / 10, 1 / 10, 1 / 10, 1 / 10, 1 / 10] = 1 / 2"
    unfolding double_sum_snoc [of "[1 / 10, 1 / 10, 1 / 10, 1 / 10]" "1 / 10", simplified] C4
    by (simp add: binary64_eval)
  have t6: "tick_consumed [5] [1 / 10, 1 / 10, 1 / 10, 1 / 10, 1 / 10] =
      [1 / 10, 1 / 10, 1 / 10, 1 / 10, 1 / 10, 1 / 10]"
    unfolding tick_consumed_def P C5 binary64_consumptionRate Let_def
    by (simp add: binary64_eval toFixed_def)
  show ?thesis
    by (simp add: eval_nat_numeral t1 t2 t3 t4 t5 t6)
qed

lemma ten_ticks_of_08:
  "(tick_consumed [4 / 5] ^^ 10) [] =
     [1 / 10, 1 / 10, 1 / 10, 1 / 10, 1 / 10, 1 / 10, 1 / 10, 1 / 10, 0, 0]"
proof -
  have P: "double_sum [4 / 5] = 3602879701896397 / 4503599627370496"
    by (simp add: double_sum_def binary64_eval)
  have C0: "double_sum [] = 0"
    by simp
  have t1: "tick_consumed [4 / 5] [] =
      [1 / 10]"
    unfolding tick_consumed_def P C0 binary64_consumptionRate Let_def
    by (simp add: binary64_eval toFixed_def)
  have C1: "double_sum [1 / 10] = 3602879701896397 / 36028797018963968"
    unfolding double_sum_snoc [of "[]" "1 / 10", simplified] C0
    by (simp add: binary64_eval)
  have t2: "tick_consumed [4 / 5] [1 / 10] =
      [1 / 10, 1 / 10]"
    unfolding tick_consumed_def P C1 binary64_consumptionRate Let_def
    by (simp add: binary64_eval toFixed_def)
  have C2: "double_sum [1 / 10, 1 / 10] = 3602879701896397 / 18014398509481984"
    unfolding double_sum_snoc [of "[1 / 10]" "1 / 10", simplified] C1
    by (simp add: binary64_eval)
  have t3: "tick_consumed [4 / 5] [1 / 10, 1 / 10] =
      [1 / 10, 1 / 10, 1 / 10]"
    unfolding tick_consumed_def P C2 binary64_consumptionRate Let_def
    by (simp add: binary64_eval toFixed_def)
  have C3: "double_sum [1 / 10, 1 / 10, 1 / 10] = 1351079888211149 / 4503599627370496"
    unfolding double_sum_snoc [of "[1 / 10, 1 / 10]" "1 / 10", simplified] C2
    by (simp add: binary64_eval)
  have t4: "tick_consumed [4 / 5] [1 / 10, 1 / 10, 1 / 10] =
      [1 / 10, 1 / 10, 1 / 10, 1 / 10]"
    unfolding tick_consumed_def P C3 binary64_consumptionRate Let_def
    by (simp add: binary64_eval toFixed_def)
  have C4: "double_sum [1 / 10, 1 / 10, 1 / 10, 1 / 10] = 3602879701896397 / 9007199254740992"
    unfolding double_sum_snoc [of "[1 / 10, 1 / 10, 1 / 10]" "1 / 10", simplified] C3
    by (simp add: binary64_eval)
  have t5: "tick_consumed [4 / 5] [1 / 10, 1 / 10, 1 / 10, 1 / 10] =
      [1 / 10, 1 / 10, 1 / 10, 1 / 10, 1 / 10]"
    unfolding tick_consumed_def P C4 binary64_consumptionRate Let_def
    by (simp add: binary64_eval toFixed_def)
  have C5: "double_sum [1 / 10, 1 / 10, 1 / 10, 1 / 10, 1 / 10] = 1 / 2"
    unfolding double_sum_snoc [of "[1 / 10, 1 / 10, 1 / 10, 1 / 10]" "1 / 10", simplified] C4
    by (simp add: binary64_eval)
  have t6: "tick_consumed [4 / 5] [1 / 10, 1 / 10, 1 / 10, 1 / 10, 1 / 10] =
      [1 / 10, 1 / 10, 1 / 10, 1 / 10, 1 / 10, 1 / 10]"
    unfolding tick_consumed_def P C5 binary64_consumptionRate Let_def
    by (simp add: binary64_eval toFixed_def)
  have C6: "double_sum [1 / 10, 1 / 10, 1 / 10, 1 / 10, 1 / 10, 1 / 10] = 5404319552844595 / 9007199254740992"
    unfolding double_sum_snoc [of "[1 / 10, 1 / 10, 1 / 10, 1 / 10, 1 / 10]" "1 / 10", simplified] C5
    by (simp add: binary64_eval)
  have t7: "tick_consumed [4 / 5] [1 / 10, 1 / 10, 1 / 10, 1 / 10, 1 / 10, 1 / 10] =
      [1 / 10, 1 / 10, 1 / 10, 1 / 10, 1 / 10, 1 / 10, 1 / 10]"
    unfolding tick_consumed_def P C6 binary64_consumptionRate Let_def
    by (simp add: binary64_eval toFixed_def)
  have C7: "double_sum [1 / 10, 1 / 10, 1 / 10, 1 / 10, 1 / 10, 1 / 10, 1 / 10] = 3152519739159347 / 4503599627370496"
    unfolding double_sum_snoc [of "[1 / 10, 1 / 10, 1 / 10, 1 / 10, 1 / 10, 1 / 10]" "1 / 10", simplified] C6
    by (simp add: binary64_eval)
  have t8: "tick_consumed [4 / 5] [1 / 10, 1 / 10, 1 / 10, 1 / 10, 1 / 10, 1 / 10, 1 / 10] =
      [1 / 10, 1 / 10, 1 / 10, 1 / 10, 1 / 10, 1 / 10, 1 / 10, 1 / 10]"
    unfolding tick_consumed_def P C7 binary64_consumptionRate Let_def
    by (simp add: binary64_eval toFixed_def)
  have C8: "double_sum [1 / 10, 1 / 10, 1 / 10, 1 / 10, 1 / 10, 1 / 10, 1 / 10, 1 / 10] = 7205759403792793 / 9007199254740992"
    unfolding double_sum_snoc [of "[1 / 10, 1 / 10, 1 / 10, 1 / 10, 1 / 10, 1 / 10, 1 / 10]" "1 / 10", simplified] C7
    by (simp add: binary64_eval)
  have t9: "tick_consumed [4 / 5] [1 / 10, 1 / 10, 1 / 10, 1 / 10, 1 / 10, 1 / 10, 1 / 10, 1 / 10] =
      [1 / 10, 1 / 10, 1 / 10, 1 / 10, 1 / 10, 1 / 10, 1 / 10, 1 / 10, 0]"
    unfolding tick_consumed_def P C8 binary64_consumptionRate Let_def
    by (simp add: binary64_eval toFixed_def)
  have C9: "double_sum [1 / 10, 1 / 10, 1 / 10, 1 / 10, 1 / 10, 1 / 10, 1 / 10, 1 / 10, 0] = 7205759403792793 / 9007199254740992"
    unfolding double_sum_snoc [of "[1 / 10, 1 / 10, 1 / 10, 1 / 10, 1 / 10, 1 / 10, 1 / 10, 1 / 10]" "0", simplified] C8
    by (simp add: binary64_eval)
  have t10: "tick_consumed [4 / 5] [1 / 10, 1 / 10, 1 / 10, 1 / 10, 1 / 10, 1 / 10, 1 / 10, 1 / 10, 0] =
      [1 / 10, 1 / 10, 1 / 10, 1 / 10, 1 / 10, 1 / 10, 1 / 10, 1 / 10, 0, 0]"
    unfolding tick_consumed_def P C9 binary64_consumptionRate Let_def
    by (simp add: binary64_eval toFixed_def)
  show ?thesis
    by (simp add: eval_nat_numeral t1 t2 t3 t4 t5 t6 t7 t8 t9 t10)
qed

text \<open>The stores of the test data after a purchase, and one tick on them.\<close>

lemma initiated_store_lists:
  "length (users initiated_store) = 1" "purchased_list initiated_store 0 = [5]"
  "consumed_list initiated_store 0 = []" "unit_consumption initiated_store = []"
  by code_simp+

lemma small_units_store_lists:
  "purchased_list small_units_store 0 = [3 / 500]" "consumed_list small_units_store 0 = []"
  "unit_consumption small_units_store = []"
  by code_simp+

lemma eighth_units_store_lists:
  "purchased_list eighth_units_store 0 = [1 / 8]" "consumed_list eighth_units_store 0 = []"
  "unit_consumption eighth_units_store = []"
  by code_simp+

lemma test_store_available: "service_calculateAvailableUnits_double test_store 0 = 0"
  by code_simp

lemma initiated_store_available: "service_calculateAvailableUnits_double initiated_store 0 = 5"
  by (simp add: service_calculateAvailableUnits_double_lists initiated_store_lists
      double_sum_def binary64_eval)

lemma small_units_store_available:
  "service_calculateAvailableUnits_double small_units_store 0 =
     3458764513820541 / 576460752303423488"
  by (simp add: service_calculateAvailableUnits_double_lists small_units_store_lists
      double_sum_def binary64_eval)

lemma eighth_units_store_available:
  "service_calculateAvailableUnits_double eighth_units_store 0 = 1 / 8"
  by (simp add: service_calculateAvailableUnits_double_lists eighth_units_store_lists
      double_sum_def binary64_eval)

lemma initiated_store_tick:
  "map (\<lambda>r. (c_units_before r, c_units_consumed r, c_units_after r))
     (unit_consumption (consumeUnitsForUser test_env initiated_store 0)) = [(5, 1 / 10, 49 / 10)]"
proof -
  have pos: "0 < service_calculateAvailableUnits_double initiated_store 0"
    by (simp add: initiated_store_available)
  show ?thesis
    unfolding consumeUnitsForUser_record [OF pos] recordUnitConsumption_simps
      initiated_store_available initiated_store_lists binary64_consumptionRate
    by (simp add: binary64_eval toFixed_def)
qed

lemma small_units_store_tick:
  "map (\<lambda>r. (c_units_before r, c_units_consumed r, c_units_after r))
     (unit_consumption (consumeUnitsForUser test_env small_units_store 0)) =
     [(1 / 100, 1 / 100, 0)]"
proof -
  have pos: "0 < service_calculateAvailableUnits_double small_units_store 0"
    by (simp add: small_units_store_available)
  show ?thesis
    unfolding consumeUnitsForUser_record [OF pos] recordUnitConsumption_simps
      small_units_store_available small_units_store_lists binary64_consumptionRate
    by (simp add: binary64_eval toFixed_def)
qed

lemma eighth_units_store_tick:
  "map (\<lambda>r. (c_units_before r, c_units_consumed r, c_units_after r))
     (unit_consumption (consumeUnitsForUser test_env eighth_units_store 0)) =
     [(13 / 100, 1 / 10, 2 / 100)]"
proof -
  have pos: "0 < service_calculateAvailableUnits_double eighth_units_store 0"
    by (simp add: eighth_units_store_available)
  show ?thesis
    unfolding consumeUnitsForUser_record [OF pos] recordUnitConsumption_simps
      eighth_units_store_available eighth_units_store_lists binary64_consumptionRate
    by (simp add: binary64_eval toFixed_def)
qed

lemma run_Cons: "run e (ev # evs) s = run e evs (step e ev s)"
  by (simp add: run_def)

lemma purchase_store_lists:
  "length (users purchase_store) = 1" "purchased_list purchase_store 0 = [5]"
  "consumed_list purchase_store 0 = []"
  by code_simp+

lemma twenty_store_lists:
  "length (users twenty_store) = 1" "purchased_list twenty_store 0 = [4 / 5]"
  "consumed_list twenty_store 0 = []"
  by code_simp+

lemma ten_ticks_ten_records:
  "consumed_list (run test_env ten_ticks test_store) 0 =
     [1 / 10, 1 / 10, 1 / 10, 1 / 10, 1 / 10, 1 / 10, 1 / 10, 1 / 10, 0, 0]"
proof -
  have p: "step test_env (Purchase (Str ''12345678'') 20 ''SUCCESS'' Null) test_store =
      twenty_store"
    by (simp add: twenty_store_def)
  have r: "run test_env ten_ticks test_store = run test_env (replicate 10 Tick) twenty_store"
    by (simp only: ten_ticks_def run_Cons p)
  from run_ticks_single_user [OF twenty_store_lists(1), of test_env 10]
  show ?thesis
    by (simp add: r twenty_store_lists ten_ticks_of_08)
qed

subsection \<open>Purchases and ticks\<close>

text \<open>A purchase appends one transaction, a tick leaves the transactions alone, and
  neither changes the meter number of a user.\<close>

lemma purchased_units_append:
  "transactions s' = transactions s @ [t] \<Longrightarrow>
   purchased_units s' userId = purchased_units s userId +
     (if t_user_id t = userId \<and> (t_status t = ''SUCCESS'' \<or> t_status t = ''completed'')
      then transaction_units t else 0)"
  by (auto simp: purchased_units_def)

lemma purchased_units_cong:
  "transactions s' = transactions s \<Longrightarrow> purchased_units s' userId = purchased_units s userId"
  by (simp add: purchased_units_def)

lemma createTransactionForMeter_Inr:
  assumes "createTransactionForMeter e s meterNo amount status reference = Inr (k, t, s')"
  shows "transactions s' = transactions s @ [t]"
    and "findUserIdByMeter s meterNo = Some (t_user_id t)"
    and "t_units t = Some (calculateUnits amount)" and "t_status t = status"
    and "map u_meter_no (users s') = map u_meter_no (users s)"
    and "unit_consumption s' = unit_consumption s"
  using assms
  by (auto simp: createTransactionForMeter_def Let_def update_at_map
      split: option.splits if_splits)

lemma createTransactionForMeter_Inl:
  "createTransactionForMeter e s meterNo amount status reference = Inl err \<Longrightarrow>
   findUserIdByMeter s meterNo = None"
  by (auto simp: createTransactionForMeter_def Let_def split: option.splits if_splits)

lemma consumeUnitsForUser_frame:
  "transactions (consumeUnitsForUser e s userId) = transactions s"
  "map u_meter_no (users (consumeUnitsForUser e s userId)) = map u_meter_no (users s)"
  by (simp_all add: consumeUnitsForUser_def recordUnitConsumption_def Let_def update_at_map)

lemma fold_consumeUnitsForUser_frame:
  "transactions (fold (\<lambda>userId s'. consumeUnitsForUser e s' userId) ks s) = transactions s \<and>
   map u_meter_no (users (fold (\<lambda>userId s'. consumeUnitsForUser e s' userId) ks s)) =
     map u_meter_no (users s)"
  by (induction ks arbitrary: s) (simp_all add: consumeUnitsForUser_frame)

lemma consumeUnitsForAllUsers_frame:
  "transactions (consumeUnitsForAllUsers e s) = transactions s"
  "map u_meter_no (users (consumeUnitsForAllUsers e s)) = map u_meter_no (users s)"
  by (simp_all add: consumeUnitsForAllUsers_def fold_consumeUnitsForUser_frame)

lemma units_bought_cong:
  assumes "map u_meter_no (users s') = map u_meter_no (users s)"
  shows "units_bought s' userId evs = units_bought s userId evs"
proof (induction evs)
  case Nil
  show ?case by simp
next
  case (Cons ev evs)
  have "findUserIdByMeter s' meterNo = findUserIdByMeter s meterNo" for meterNo
    using assms by (rule findUserIdByMeter_cong)
  with Cons show ?case by (cases ev) simp_all
qed

lemma step_purchased:
  assumes "\<not> is_callback ev"
  shows "purchased_units (step e ev s) userId = purchased_units s userId + units_bought s userId [ev]"
    and "map u_meter_no (users (step e ev s)) = map u_meter_no (users s)"
proof -
  show "purchased_units (step e ev s) userId = purchased_units s userId + units_bought s userId [ev]"
  proof (cases ev)
    case (Purchase meterNo amount status reference)
    show ?thesis
    proof (cases "createTransactionForMeter e s meterNo amount status reference")
      case (Inl err)
      from createTransactionForMeter_Inl [OF Inl] Inl Purchase show ?thesis by simp
    next
      case (Inr res)
      obtain k t s' where res: "res = (k, t, s')" by (cases res) auto
      note c = createTransactionForMeter_Inr [OF Inr [unfolded res]]
      from purchased_units_append [OF c(1), of userId] c(2,3,4) Inr Purchase res
      show ?thesis by (auto simp: transaction_units_def)
    qed
  next
    case (Callback p)
    with assms show ?thesis by simp
  next
    case Tick
    then show ?thesis
      using purchased_units_cong [OF consumeUnitsForAllUsers_frame(1), of e s userId]
      by simp
  qed
  show "map u_meter_no (users (step e ev s)) = map u_meter_no (users s)"
  proof (cases ev)
    case (Purchase meterNo amount status reference)
    then show ?thesis
      by (auto split: sum.splits dest: createTransactionForMeter_Inr(5))
  next
    case (Callback p)
    with assms show ?thesis by simp
  next
    case Tick
    then show ?thesis by (simp add: consumeUnitsForAllUsers_frame)
  qed
qed

lemma run_purchased:
  "\<forall>ev\<in>set evs. \<not> is_callback ev \<Longrightarrow>
   purchased_units (run e evs s) userId = purchased_units s userId + units_bought s userId evs"
proof (induction evs arbitrary: s)
  case Nil
  then show ?case by (simp add: run_def)
next
  case (Cons ev evs)
  then have ev: "\<not> is_callback ev" and evs: "\<forall>ev\<in>set evs. \<not> is_callback ev" by simp_all
  have "run e (ev # evs) s = run e evs (step e ev s)" by (simp add: run_def)
  moreover have "units_bought s userId (ev # evs) =
      units_bought s userId [ev] + units_bought (step e ev s) userId evs"
    using units_bought_cong [OF step_purchased(2) [OF ev], of e s userId evs]
    by (cases ev) simp_all
  ultimately show ?case
    using Cons.IH [OF evs, of "step e ev s"] step_purchased(1) [OF ev, of e s userId]
    by simp
qed

section \<open>The claims\<close>

subsection \<open>Status of a callback\<close>

text \<open>Whatever the payload, the result code that \<open>saveCallbackTransaction\<close> extracts is
  never the number \<open>0\<close>: a \<open>ResultCode\<close> of \<open>0\<close> is falsy, so the chain of \<open>||\<close> passes it
  over and ends at the default \<open>1\<close>. No callback is recorded as \<open>SUCCESS\<close>.\<close>

lemma saveCallbackTransaction_never_success:
  "r_status (fst (saveCallbackTransaction e s p)) \<noteq> Some ''SUCCESS''"
  by (simp add: saveCallbackTransaction_def Let_def resultCode_of_not_0 split: option.split)

text \<open>
  C1. A payload whose \<open>ResultCode\<close> is \<open>0\<close> should give a transaction with status
  \<open>SUCCESS\<close>. On the callback of \<open>test-callback.js\<close>, whose \<open>ResultCode\<close> is \<open>0\<close>, the code
  processes the payload and records the status \<open>FAILED\<close>.
\<close>

theorem callback_result_code_0_recorded_failed:
  "js_get test_callback ''ResultCode'' = Num 0 \<and>
   success (fst (saveCallbackTransaction test_env test_store test_callback)) \<and>
   r_status (fst (saveCallbackTransaction test_env test_store test_callback)) = Some ''FAILED'' \<and>
   map t_status (transactions (snd (saveCallbackTransaction test_env test_store test_callback)))
     = [''FAILED'']"
  by code_simp

subsection \<open>Duplicate callbacks\<close>

text \<open>The callback of \<open>test-callback.js\<close>, delivered twice: the first delivery creates
  transaction \<open>0\<close>, the second is reported as a duplicate and carries no transaction id.\<close>

theorem duplicate_callback_transaction_id_counterexample:
  "success (fst (saveCallbackTransaction test_env test_store test_callback)) \<and>
   r_transaction_id (fst (saveCallbackTransaction test_env test_store test_callback)) = Some 0 \<and>
   duplicate (fst (saveCallbackTransaction test_env
      (snd (saveCallbackTransaction test_env test_store test_callback)) test_callback)) \<and>
   r_transaction_id (fst (saveCallbackTransaction test_env
      (snd (saveCallbackTransaction test_env test_store test_callback)) test_callback)) = None"
  by code_simp

text \<open>
  C2, amended. When a callback has been processed (success, not a duplicate) and a second
  callback carries the same receipt number and a bill reference, the second call reports
  \<open>success = true\<close> and \<open>duplicate = true\<close> with \<open>transaction_id\<close> \<open>null\<close>, leaves the store
  as it is, and exactly one transaction with that receipt number is persisted.
\<close>

theorem duplicate_callback_idempotent:
  assumes "saveCallbackTransaction e s p1 = (r1, s1)" "success r1" "\<not> duplicate r1"
    and "truthy (mpesaReceiptNumber_of p2)" "mpesaReceiptNumber_of p2 = mpesaReceiptNumber_of p1"
    and "truthy (billRefNumber_of p2)"
  shows "saveCallbackTransaction e' s1 p2 =
           (\<lparr>success = True, duplicate = True, r_message = Already_processed,
             r_transaction_id = None, r_status = None\<rparr>, s1) \<and>
         length (filter (\<lambda>t. t_mpesa_receipt t = mpesaReceiptNumber_of p2) (transactions s1)) = 1"
proof -
  let ?rc = "mpesaReceiptNumber_of p2"
  let ?Q = "\<lambda>t. t_mpesa_receipt t = ?rc"
  have one: "length (filter ?Q (transactions s1)) = 1"
    using assms(1-3)
  proof (cases rule: saveCallbackTransaction_success_cases)
    case (update userId k)
    from update(2) assms(4,5) have none: "\<forall>t\<in>set (transactions s). \<not> ?Q t"
      by (auto simp: transactionExists_iff)
    from update(4) have k: "k < length (transactions s)"
      by (simp add: findTransactionByReference_Some)
    let ?y = "callback_fields (resultCode_of p1) (resultDesc_of p1)
        (mpesaReceiptNumber_of p1) (phoneNumber_of p1) ''FAILED''
        (formattedTimestamp e (transactionDate_of e p1)) p1 (transactions s ! k)"
    have Qy: "?Q ?y"
      using assms(4,5) by (simp add: callback_fields_def js_or_Null_truthy)
    have ts: "transactions s1 = (transactions s)[k := ?y]"
      using k by (simp add: update(6) update_at_def)
    have "filter ?Q ((transactions s)[k := ?y]) = [?y]"
      using none k Qy by (rule filter_update_single)
    then show ?thesis by (simp only: ts list.size)
  next
    case (create userId)
    from create(2) assms(4,5) have none: "filter ?Q (transactions s) = []"
      by (auto simp: transactionExists_iff filter_empty_conv)
    show ?thesis using none assms(4,5)
      by (simp add: create(6) js_or_Null_truthy)
  qed
  then have "filter ?Q (transactions s1) \<noteq> []" by auto
  then have "\<exists>t\<in>set (transactions s1). ?Q t"
    by (simp add: filter_empty_conv)
  then have "transactionExists s1 ?rc"
    using assms(4) by (simp add: transactionExists_iff)
  from saveCallbackTransaction_duplicate [OF assms(6) this] one show ?thesis by simp
qed

theorem duplicate_callback_idempotent_witness:
  "success (fst (saveCallbackTransaction test_env test_store test_callback)) \<and>
   \<not> duplicate (fst (saveCallbackTransaction test_env test_store test_callback)) \<and>
   truthy (mpesaReceiptNumber_of test_callback) \<and> truthy (billRefNumber_of test_callback) \<and>
   duplicate (fst (saveCallbackTransaction test_env
      (snd (saveCallbackTransaction test_env test_store test_callback)) test_callback)) \<and>
   length (filter (\<lambda>t. t_mpesa_receipt t = mpesaReceiptNumber_of test_callback)
      (transactions (snd (saveCallbackTransaction test_env test_store test_callback)))) = 1"
proof -
  have h1: "saveCallbackTransaction test_env test_store test_callback =
      (fst (saveCallbackTransaction test_env test_store test_callback),
       snd (saveCallbackTransaction test_env test_store test_callback))" by simp
  have h2: "success (fst (saveCallbackTransaction test_env test_store test_callback))"
    by code_simp
  have h3: "\<not> duplicate (fst (saveCallbackTransaction test_env test_store test_callback))"
    by code_simp
  have h4: "truthy (mpesaReceiptNumber_of test_callback)" by code_simp
  have h6: "truthy (billRefNumber_of test_callback)" by code_simp
  from duplicate_callback_idempotent [OF h1 h2 h3 h4 refl h6, of test_env] h2 h3 h4 h6
  show ?thesis by simp
qed

subsection \<open>Callbacks that match an initiated transaction\<close>

text \<open>A callback whose conversation id is the reference of the initiated transaction, and
  that has no bill reference, fails before the lookup: the transaction keeps its fields.\<close>

theorem matched_callback_without_billref_counterexample:
  "conversationId_of callback_without_billref = t_reference (transactions initiated_store ! 0) \<and>
   \<not> transactionExists initiated_store (mpesaReceiptNumber_of callback_without_billref) \<and>
   \<not> success (fst (saveCallbackTransaction test_env initiated_store callback_without_billref)) \<and>
   transactions (snd (saveCallbackTransaction test_env initiated_store callback_without_billref))
     = transactions initiated_store \<and>
   t_mpesa_receipt (transactions
       (snd (saveCallbackTransaction test_env initiated_store callback_without_billref)) ! 0)
     \<noteq> mpesaReceiptNumber_of callback_without_billref"
  by code_simp

text \<open>
  C3, amended. When the conversation id of a callback is present and is the reference of
  a transaction, its receipt number is not persisted yet, and its bill reference is
  present and is the meter of a user, \<open>saveCallbackTransaction\<close> updates the first
  transaction with that reference in place and returns its key: it writes the status (the
  one derived from the result code), the receipt, the phone number, the result code and
  description, the timestamp and the raw payload, and keeps the user, the meter, the
  amount, the units, the remainder and the reference. Every other transaction is as it
  was, the number of transactions does not change, and the consumption records and the
  meters are untouched.
\<close>

theorem matched_callback_updates_in_place:
  assumes "t \<in> set (transactions s)" "t_reference t = conversationId_of p"
    and "truthy (conversationId_of p)"
    and "\<not> transactionExists s (mpesaReceiptNumber_of p)"
    and "truthy (billRefNumber_of p)" "findUserIdByMeter s (billRefNumber_of p) = Some userId"
    and "status = (if resultCode_of p = Num 0 then ''SUCCESS'' else ''FAILED'')"
    and "old = transactions s" "new = transactions (snd (saveCallbackTransaction e s p))"
  shows "\<exists>k<length old.
           t_reference (old ! k) = conversationId_of p \<and>
           (\<forall>j<k. t_reference (old ! j) \<noteq> conversationId_of p) \<and>
           fst (saveCallbackTransaction e s p) =
             \<lparr>success = True, duplicate = False, r_message = Processed status,
              r_transaction_id = Some k, r_status = Some status\<rparr> \<and>
           length new = length old \<and>
           (\<forall>j<length old. j \<noteq> k \<longrightarrow> new ! j = old ! j) \<and>
           t_status (new ! k) = status \<and>
           t_mpesa_receipt (new ! k) = js_or (mpesaReceiptNumber_of p) Null \<and>
           t_phone_number (new ! k) = js_or (phoneNumber_of p) Null \<and>
           t_result_code (new ! k) = resultCode_of p \<and>
           t_result_desc (new ! k) = resultDesc_of p \<and>
           t_timestamp (new ! k) = formattedTimestamp e (transactionDate_of e p) \<and>
           t_raw_callback (new ! k) = Some p \<and>
           t_user_id (new ! k) = t_user_id (old ! k) \<and>
           t_meter_no (new ! k) = t_meter_no (old ! k) \<and>
           t_amount (new ! k) = t_amount (old ! k) \<and>
           t_units (new ! k) = t_units (old ! k) \<and>
           t_remainder (new ! k) = t_remainder (old ! k) \<and>
           t_reference (new ! k) = t_reference (old ! k) \<and>
           unit_consumption (snd (saveCallbackTransaction e s p)) = unit_consumption s \<and>
           meters (snd (saveCallbackTransaction e s p)) = meters s"
proof -
  from assms(1-3) have "findTransactionByReference s (conversationId_of p) \<noteq> None"
    by (auto simp: findTransactionByReference_None)
  then obtain k where k: "findTransactionByReference s (conversationId_of p) = Some k"
    by auto
  from k have fk: "find_key (\<lambda>t. t_reference t = conversationId_of p) (transactions s) = Some k"
    by (simp add: findTransactionByReference_def split: if_splits)
  from find_key_Some [OF fk] assms(8)
  have k1: "k < length old" and k2: "t_reference (old ! k) = conversationId_of p"
    and k3: "\<forall>j<k. t_reference (old ! j) \<noteq> conversationId_of p"
    by simp_all
  have st: "status = ''FAILED''"
    using assms(7) by (simp add: resultCode_of_not_0)
  have r: "saveCallbackTransaction e s p =
     (\<lparr>success = True, duplicate = False, r_message = Processed status,
       r_transaction_id = Some k, r_status = Some status\<rparr>,
      s\<lparr>transactions := update_at k
          (callback_fields (resultCode_of p) (resultDesc_of p) (mpesaReceiptNumber_of p)
             (phoneNumber_of p) status (formattedTimestamp e (transactionDate_of e p)) p)
          old\<rparr>)"
    using saveCallbackTransaction_update [OF assms(5) assms(4) assms(6) assms(3) k, of e]
    by (simp add: st assms(8))
  have new: "new = old[k := callback_fields (resultCode_of p) (resultDesc_of p)
      (mpesaReceiptNumber_of p) (phoneNumber_of p) status
      (formattedTimestamp e (transactionDate_of e p)) p (old ! k)]"
    using k1 by (simp add: assms(9) r update_at_def)
  have "fst (saveCallbackTransaction e s p) =
             \<lparr>success = True, duplicate = False, r_message = Processed status,
              r_transaction_id = Some k, r_status = Some status\<rparr>"
    and "unit_consumption (snd (saveCallbackTransaction e s p)) = unit_consumption s"
    and "meters (snd (saveCallbackTransaction e s p)) = meters s"
    by (simp_all add: r)
  moreover have "length new = length old"
    and "\<forall>j<length old. j \<noteq> k \<longrightarrow> new ! j = old ! j"
    by (simp_all add: new)
  moreover have "t_status (new ! k) = status"
    "t_mpesa_receipt (new ! k) = js_or (mpesaReceiptNumber_of p) Null"
    "t_phone_number (new ! k) = js_or (phoneNumber_of p) Null"
    "t_result_code (new ! k) = resultCode_of p"
    "t_result_desc (new ! k) = resultDesc_of p"
    "t_timestamp (new ! k) = formattedTimestamp e (transactionDate_of e p)"
    "t_raw_callback (new ! k) = Some p"
    "t_user_id (new ! k) = t_user_id (old ! k)"
    "t_meter_no (new ! k) = t_meter_no (old ! k)"
    "t_amount (new ! k) = t_amount (old ! k)"
    "t_units (new ! k) = t_units (old ! k)"
    "t_remainder (new ! k) = t_remainder (old ! k)"
    "t_reference (new ! k) = t_reference (old ! k)"
    using k1 by (simp_all add: new callback_fields_def)
  ultimately show ?thesis using k1 k2 k3 by blast
qed

theorem matched_callback_updates_in_place_witness:
  "transactions initiated_store ! 0 \<in> set (transactions initiated_store) \<and>
   t_reference (transactions initiated_store ! 0) = conversationId_of test_callback \<and>
   truthy (conversationId_of test_callback) \<and>
   \<not> transactionExists initiated_store (mpesaReceiptNumber_of test_callback) \<and>
   truthy (billRefNumber_of test_callback) \<and>
   findUserIdByMeter initiated_store (billRefNumber_of test_callback) = Some 0 \<and>
   length (transactions (snd (saveCallbackTransaction test_env initiated_store test_callback)))
     = length (transactions initiated_store) \<and>
   r_transaction_id (fst (saveCallbackTransaction test_env initiated_store test_callback))
     = Some 0 \<and>
   t_mpesa_receipt
     (transactions (snd (saveCallbackTransaction test_env initiated_store test_callback)) ! 0)
     = Str ''ABC123456789'' \<and>
   t_units
     (transactions (snd (saveCallbackTransaction test_env initiated_store test_callback)) ! 0)
     = Some 5"
proof -
  have h1: "transactions initiated_store ! 0 \<in> set (transactions initiated_store)" by code_simp
  have h2: "t_reference (transactions initiated_store ! 0) = conversationId_of test_callback"
    by code_simp
  have h3: "truthy (conversationId_of test_callback)" by code_simp
  have h4: "\<not> transactionExists initiated_store (mpesaReceiptNumber_of test_callback)"
    by code_simp
  have h5: "truthy (billRefNumber_of test_callback)" by code_simp
  have h6: "findUserIdByMeter initiated_store (billRefNumber_of test_callback) = Some 0"
    by code_simp
  have l: "length (transactions initiated_store) = 1" by code_simp
  have u: "t_units (transactions initiated_store ! 0) = Some 5" by code_simp
  have m: "js_or (mpesaReceiptNumber_of test_callback) Null = Str ''ABC123456789''"
    by code_simp
  from matched_callback_updates_in_place [OF h1 h2 h3 h4 h5 h6 refl refl refl, of test_env]
  have "length (transactions (snd (saveCallbackTransaction test_env initiated_store test_callback)))
     = length (transactions initiated_store) \<and>
   r_transaction_id (fst (saveCallbackTransaction test_env initiated_store test_callback))
     = Some 0 \<and>
   t_mpesa_receipt
     (transactions (snd (saveCallbackTransaction test_env initiated_store test_callback)) ! 0)
     = Str ''ABC123456789'' \<and>
   t_units
     (transactions (snd (saveCallbackTransaction test_env initiated_store test_callback)) ! 0)
     = Some 5"
    using l u m by auto
  with h1 h2 h3 h4 h5 h6 show ?thesis by blast
qed

subsection \<open>Callbacks without a receipt number\<close>

text \<open>
  C9. A callback whose receipt number is absent (or otherwise falsy) is never reported
  as a duplicate; when it is processed it appends a new transaction, or updates the one
  its conversation id finds, on every delivery.
\<close>

theorem receiptless_callback_never_duplicate:
  assumes "\<not> truthy (mpesaReceiptNumber_of p)"
  shows "\<not> duplicate (fst (saveCallbackTransaction e s p)) \<and>
    (success (fst (saveCallbackTransaction e s p)) \<longrightarrow>
       (case findTransactionByReference s (conversationId_of p) of
          None \<Rightarrow>
            length (transactions (snd (saveCallbackTransaction e s p))) =
              Suc (length (transactions s)) \<and>
            take (length (transactions s)) (transactions (snd (saveCallbackTransaction e s p))) =
              transactions s \<and>
            r_transaction_id (fst (saveCallbackTransaction e s p)) = Some (length (transactions s))
        | Some k \<Rightarrow>
            length (transactions (snd (saveCallbackTransaction e s p))) = length (transactions s) \<and>
            k < length (transactions s) \<and>
            t_raw_callback (transactions (snd (saveCallbackTransaction e s p)) ! k) = Some p \<and>
            r_transaction_id (fst (saveCallbackTransaction e s p)) = Some k))"
proof -
  have nd: "\<not> transactionExists s (mpesaReceiptNumber_of p)"
    using assms by (simp add: transactionExists_iff)
  show ?thesis
  proof (cases "truthy (billRefNumber_of p)")
    case False
    then show ?thesis by (simp add: saveCallbackTransaction_no_billref)
  next
    case b: True
    show ?thesis
    proof (cases "findUserIdByMeter s (billRefNumber_of p)")
      case None
      with b nd show ?thesis by (simp add: saveCallbackTransaction_no_user)
    next
      case (Some userId)
      show ?thesis
      proof (cases "findTransactionByReference s (conversationId_of p)")
        case None
        from saveCallbackTransaction_create [OF b nd Some None, of e] None
        show ?thesis by simp
      next
        case k: (Some k)
        note kk = findTransactionByReference_Some [OF k]
        from saveCallbackTransaction_update [OF b nd Some _ k, of e] kk k
        show ?thesis by (simp add: update_at_def callback_fields_def)
      qed
    qed
  qed
qed

theorem receiptless_callback_never_duplicate_witness:
  "\<not> truthy (mpesaReceiptNumber_of callback_without_receipt) \<and>
   success (fst (saveCallbackTransaction test_env test_store callback_without_receipt)) \<and>
   \<not> duplicate (fst (saveCallbackTransaction test_env test_store callback_without_receipt)) \<and>
   length (transactions (snd (saveCallbackTransaction test_env test_store callback_without_receipt)))
     = Suc (length (transactions test_store))"
proof -
  have h: "\<not> truthy (mpesaReceiptNumber_of callback_without_receipt)" by code_simp
  have s: "success (fst (saveCallbackTransaction test_env test_store callback_without_receipt))"
    by code_simp
  have n: "findTransactionByReference test_store (conversationId_of callback_without_receipt) = None"
    by code_simp
  from receiptless_callback_never_duplicate [OF h, of test_env test_store] h s n
  show ?thesis by simp
qed

subsection \<open>Unit conversion\<close>

text \<open>
  C5. \<open>calculateUnits(A)\<close> is \<open>A / 25\<close> rounded to two decimal places and does not decrease
  when \<open>A\<close> grows; KSH 125 gives 5.00 units with remainder 0, and KSH 110 gives 4.40 units
  with the recorded remainder 10. (Proved for every amount, negative ones included.)
\<close>

theorem calculateUnits_rounds_and_monotone:
  "is_round2 (A / 25) (calculateUnits A) \<and>
   (A \<le> B \<longrightarrow> calculateUnits A \<le> calculateUnits B) \<and>
   calculateUnits 125 = 5 \<and> js_rem 125 25 = 0 \<and>
   calculateUnits 110 = 44 / 10 \<and> js_rem 110 25 = 10 \<and>
   map_sum id (\<lambda>(transactionId, t, s'). (t_units t, t_remainder t))
     (createTransactionForMeter e test_store (Str ''12345678'') 110 status reference) =
     Inr (Some (44 / 10), Some 10)"
proof -
  have "is_round2 (A / 25) (calculateUnits A)"
    by (simp add: calculateUnits_def toFixed2_round)
  moreover have "A \<le> B \<longrightarrow> calculateUnits A \<le> calculateUnits B"
    by (simp add: calculateUnits_def toFixed_mono divide_right_mono)
  moreover have v: "calculateUnits 125 = 5" "js_rem 125 25 = 0" "calculateUnits 110 = 44 / 10"
    "js_rem 110 25 = 10"
    by (simp_all add: calculateUnits_def toFixed_def js_rem_def)
  moreover have "map_sum id (\<lambda>(transactionId, t, s'). (t_units t, t_remainder t))
     (createTransactionForMeter e test_store (Str ''12345678'') 110 status reference) =
     Inr (Some (44 / 10), Some 10)"
    using v by (simp add: createTransactionForMeter_def Let_def test_store_def test_user_def
        findUserIdByMeter_def)
  ultimately show ?thesis by blast
qed

theorem calculateUnits_rounds_and_monotone_witness:
  "(100::rat) \<le> 110 \<and> calculateUnits 100 \<le> calculateUnits 110 \<and>
   is_round2 (100 / 25) (calculateUnits 100)"
  using calculateUnits_rounds_and_monotone [of 100 110] by simp

subsection \<open>Available units\<close>

text \<open>
  C7. After every sequence of purchases, callbacks and consumption ticks, from any store,
  the available units of every user are at least zero.
\<close>

theorem balance_never_negative:
  "0 \<le> calculateAvailableUnits (run e evs s) userId \<and>
   0 \<le> service_calculateAvailableUnits (run e evs s) userId"
  by (simp add: calculateAvailableUnits_nonneg service_calculateAvailableUnits_def)



text \<open>
  C4. After any sequence of purchases and consumption ticks, if the successful
  transactions of a user total \<open>U\<close> units (those in the store before plus those the
  purchases of the sequence give) and the consumption records total \<open>C \<le> U\<close> units, then
  \<open>calculateAvailableUnits\<close> is \<open>U - C\<close> rounded to two decimal places. Scenario D: KSH 125
  and six ticks leave 4.40 units.
\<close>

theorem balance_conservation:
  assumes "\<forall>ev\<in>set evs. \<not> is_callback ev"
    and "U = purchased_units s userId + units_bought s userId evs"
    and "C = consumed_units (run e evs s) userId"
    and "C \<le> U"
  shows "calculateAvailableUnits (run e evs s) userId = toFixed 2 (U - C) \<and>
         is_round2 (U - C) (calculateAvailableUnits (run e evs s) userId)"
proof -
  have "purchased_units (run e evs s) userId = U"
    using run_purchased [OF assms(1)] assms(2) by simp
  then have "calculateAvailableUnits (run e evs s) userId = toFixed 2 (max 0 (U - C))"
    using assms(3)
    by (simp add: calculateAvailableUnits_def totalPurchasedUnits_sum totalConsumedUnits_sum)
  with assms(4) show ?thesis by (simp add: max_def toFixed2_round)
qed

theorem balance_conservation_witness:
  "filter is_callback scenario_D = [] \<and>
   (5::rat) = purchased_units test_store 0 + units_bought test_store 0 scenario_D \<and>
   (6 / 10::rat) = consumed_units (run test_env scenario_D test_store) 0 \<and>
   (6 / 10::rat) \<le> 5 \<and>
   calculateAvailableUnits (run test_env scenario_D test_store) 0 = 44 / 10"
proof -
  have h1: "\<forall>ev\<in>set scenario_D. \<not> is_callback ev"
    by (simp add: scenario_D_def)
  have h2: "(5::rat) = purchased_units test_store 0 + units_bought test_store 0 scenario_D"
    by code_simp
  have h3: "(6 / 10::rat) = consumed_units (run test_env scenario_D test_store) 0"
  proof -
    have p: "step test_env (Purchase (Str ''12345678'') 125 ''SUCCESS'' Null) test_store =
        purchase_store"
      by (simp add: purchase_store_def)
    have r: "run test_env scenario_D test_store = run test_env (replicate 6 Tick) purchase_store"
      by (simp only: scenario_D_def run_Cons p)
    from run_ticks_single_user [OF purchase_store_lists(1), of test_env 6]
    show ?thesis
      by (simp add: r purchase_store_lists six_ticks_of_5 consumed_units_list)
  qed
  have h4: "(6 / 10::rat) \<le> 5" by simp
  have t: "toFixed 2 (5 - 6 / 10) = 44 / 10" by (simp add: toFixed_def)
  have h1': "filter is_callback scenario_D = []"
    by (simp add: scenario_D_def)
  from balance_conservation [OF h1 h2 h3 h4] t h1' h2 h3 h4 show ?thesis by simp
qed

subsection \<open>A consumption tick\<close>

text \<open>A user with 0.006 units: the tick takes \<open>min(0.1, 0.006)\<close> and records it with two
  decimal places, as 0.01 units consumed, which is not \<open>min(0.1, 0.006)\<close> and is more than
  the user had. A user with 0.125 units: the double \<open>0.125 - 0.1\<close> is just below 0.025, so
  the record holds 0.13 before, 0.1 consumed and 0.02 after.\<close>

theorem tick_rounds_consumption_counterexample:
  "0 < service_calculateAvailableUnits_double small_units_store 0 \<and>
   map (\<lambda>r. (c_units_before r, c_units_consumed r, c_units_after r))
     (unit_consumption (consumeUnitsForUser test_env small_units_store 0))
     = [(1 / 100, 1 / 100, 0)] \<and>
   1 / 100 \<noteq> min (binary64 consumptionRate)
     (service_calculateAvailableUnits_double small_units_store 0) \<and>
   service_calculateAvailableUnits_double small_units_store 0 < 1 / 100 \<and>
   0 < service_calculateAvailableUnits_double eighth_units_store 0 \<and>
   map (\<lambda>r. (c_units_before r, c_units_consumed r, c_units_after r))
     (unit_consumption (consumeUnitsForUser test_env eighth_units_store 0))
     = [(13 / 100, 1 / 10, 2 / 100)] \<and>
   (2 / 100 :: rat) \<noteq> 13 / 100 - 1 / 10"
  by (simp add: small_units_store_tick eighth_units_store_tick small_units_store_available
      eighth_units_store_available binary64_consumptionRate)

text \<open>
  C8, amended. In a tick, a user whose available units, as the service computes them,
  are not positive is skipped and nothing changes. Otherwise \<open>min(0.1, available)\<close> units
  are taken and one consumption record is appended that holds, each rounded to two
  decimal places by \<open>toFixed(2)\<close>, the units consumed \<open>min(0.1, available)\<close>, the units before
  \<open>available\<close> and the units after \<open>max(0, available - min(0.1, available))\<close>, with the rate,
  the time and the type \<open>automatic_consumption\<close>. The three recorded amounts are not
  negative, the recorded units consumed are at most 0.1, and neither the recorded units
  consumed nor the recorded units after exceed the recorded units before. The user's
  \<open>current_units\<close> is set to the recorded units after; the transactions and the meters are
  untouched.
\<close>

theorem consumeUnitsForUser_tick:
  assumes "s' = consumeUnitsForUser e s userId"
    and "available = service_calculateAvailableUnits_double s userId"
    and "consumed = min (binary64 consumptionRate) available"
    and "remaining = max 0 (binary64 (available - consumed))"
  shows "(available \<le> 0 \<longrightarrow> s' = s) \<and>
    (0 < available \<longrightarrow>
       unit_consumption s' = unit_consumption s @
         [\<lparr>c_user_id = Some userId, c_meter_no = None,
           c_units_consumed = toFixed 2 consumed,
           c_units_before = toFixed 2 available,
           c_units_after = toFixed 2 remaining,
           c_consumption_rate = Some consumptionRate,
           c_timestamp = Str (now e), c_type = Some ''automatic_consumption''\<rparr>] \<and>
       0 \<le> toFixed 2 consumed \<and> 0 \<le> toFixed 2 available \<and> 0 \<le> toFixed 2 remaining \<and>
       toFixed 2 consumed \<le> 1 / 10 \<and>
       toFixed 2 consumed \<le> toFixed 2 available \<and>
       toFixed 2 remaining \<le> toFixed 2 available \<and>
       users s' = update_at userId
         (\<lambda>u. u\<lparr>u_current_units := Some (toFixed 2 remaining),
                 u_last_consumption_timestamp := Some (now e),
                 u_last_consumption_amount := Some (toFixed 2 consumed)\<rparr>)
         (users s) \<and>
       transactions s' = transactions s \<and> meters s' = meters s)"
proof (cases "available \<le> 0")
  case True
  then show ?thesis using assms(1,2) by (simp add: consumeUnitsForUser_def)
next
  case False
  then have pos: "0 < available" by simp
  have rate: "0 < binary64 consumptionRate"
    by (simp add: binary64_consumptionRate)
  have c: "0 \<le> consumed" "consumed \<le> binary64 consumptionRate" "consumed \<le> available"
    using pos rate assms(3) by simp_all
  have nonneg: "0 \<le> toFixed 2 consumed" "0 \<le> toFixed 2 available" "0 \<le> toFixed 2 remaining"
    using c(1) pos assms(4) by (simp_all add: toFixed_nonneg)
  have "toFixed 2 consumed \<le> toFixed 2 (binary64 consumptionRate)"
    using c(2) by (rule toFixed_mono)
  then have le_rate: "toFixed 2 consumed \<le> 1 / 10"
    by (simp only: toFixed2_consumptionRate)
  have le_before: "toFixed 2 consumed \<le> toFixed 2 available"
    using c(3) by (rule toFixed_mono)
  have "binary64 (available - consumed) \<le> binary64 available"
    using c(1) by (intro binary64_mono) simp
  also have "binary64 available = available"
    by (simp only: assms(2) service_calculateAvailableUnits_double_is_double)
  finally have "remaining \<le> available"
    using pos assms(4) by simp
  then have after_le: "toFixed 2 remaining \<le> toFixed 2 available"
    by (rule toFixed_mono)
  have s': "s' = recordUnitConsumption e s userId consumed available remaining"
    using assms pos by (simp add: consumeUnitsForUser_def Let_def)
  have "unit_consumption s' = unit_consumption s @
         [\<lparr>c_user_id = Some userId, c_meter_no = None,
           c_units_consumed = toFixed 2 consumed,
           c_units_before = toFixed 2 available,
           c_units_after = toFixed 2 remaining,
           c_consumption_rate = Some consumptionRate,
           c_timestamp = Str (now e), c_type = Some ''automatic_consumption''\<rparr>]"
    and "users s' = update_at userId
         (\<lambda>u. u\<lparr>u_current_units := Some (toFixed 2 remaining),
                 u_last_consumption_timestamp := Some (now e),
                 u_last_consumption_amount := Some (toFixed 2 consumed)\<rparr>)
         (users s)"
    and "transactions s' = transactions s" and "meters s' = meters s"
    by (simp_all add: s' recordUnitConsumption_def Let_def)
  with pos nonneg le_rate le_before after_le show ?thesis by simp
qed

theorem consumeUnitsForUser_tick_witness:
  "service_calculateAvailableUnits_double test_store 0 \<le> 0 \<and>
   consumeUnitsForUser test_env test_store 0 = test_store \<and>
   0 < service_calculateAvailableUnits_double initiated_store 0 \<and>
   map (\<lambda>r. (c_units_before r, c_units_consumed r, c_units_after r))
     (unit_consumption (consumeUnitsForUser test_env initiated_store 0))
     = [(5, 1 / 10, 49 / 10)]"
proof -
  have t: "toFixed 2 5 = 5"
    "toFixed 2 (min (binary64 consumptionRate) 5) = 1 / 10"
    "toFixed 2 (max 0 (binary64 (5 - min (binary64 consumptionRate) 5))) = 49 / 10"
    unfolding binary64_consumptionRate
    by (simp_all add: binary64_eval toFixed_def)
  from consumeUnitsForUser_tick [where e = test_env and s = test_store and userId = 0,
      OF refl refl refl refl]
    consumeUnitsForUser_tick [where e = test_env and s = initiated_store and userId = 0,
      OF refl refl refl refl]
  show ?thesis
    by (simp add: test_store_available initiated_store_available initiated_store_lists t)
qed

subsection \<open>Device-driven consumption\<close>

text \<open>
  C10. After \<open>consumeUnits(meterNo, units)\<close> the persisted balance of the meter is
  \<open>max(0, round4(previous balance - units))\<close>, which is not negative; the appended log
  records the requested units as \<open>units_consumed\<close>, the previous balance as \<open>units_before\<close>
  and the new balance as \<open>units_after\<close>; so when the units exceed the previous balance,
  \<open>units_after\<close> is not \<open>units_before - units_consumed\<close>.
\<close>

theorem consumeUnits_clamps_balance:
  "map_option m_balance (meters (snd (consumeUnits e s meterNo units)) meterNo) =
     Some (Some (max 0 (round4 (meter_balance s meterNo - units)))) \<and>
   meter_balance (snd (consumeUnits e s meterNo units)) meterNo =
     max 0 (round4 (meter_balance s meterNo - units)) \<and>
   0 \<le> meter_balance (snd (consumeUnits e s meterNo units)) meterNo \<and>
   length (unit_consumption (snd (consumeUnits e s meterNo units))) =
     Suc (length (unit_consumption s)) \<and>
   c_units_consumed (last (unit_consumption (snd (consumeUnits e s meterNo units)))) = units \<and>
   c_units_before (last (unit_consumption (snd (consumeUnits e s meterNo units)))) =
     meter_balance s meterNo \<and>
   c_units_after (last (unit_consumption (snd (consumeUnits e s meterNo units)))) =
     meter_balance (snd (consumeUnits e s meterNo units)) meterNo \<and>
   (meter_balance s meterNo < units \<longrightarrow>
      c_units_after (last (unit_consumption (snd (consumeUnits e s meterNo units)))) \<noteq>
      c_units_before (last (unit_consumption (snd (consumeUnits e s meterNo units)))) -
      c_units_consumed (last (unit_consumption (snd (consumeUnits e s meterNo units)))))"
  by (auto simp: consumeUnits_def Let_def meter_balance_def split: option.splits)

theorem consumeUnits_clamps_balance_witness:
  "meter_balance meter_store ''12345678'' < 3 \<and>
   meter_balance (snd (consumeUnits test_env meter_store ''12345678'' 3)) ''12345678'' = 0 \<and>
   c_units_after (last (unit_consumption (snd (consumeUnits test_env meter_store ''12345678'' 3)))) \<noteq>
   c_units_before (last (unit_consumption (snd (consumeUnits test_env meter_store ''12345678'' 3)))) -
   c_units_consumed (last (unit_consumption (snd (consumeUnits test_env meter_store ''12345678'' 3))))"
proof -
  have h: "meter_balance meter_store ''12345678'' = 1"
    by (simp add: meter_balance_def meter_store_def)
  have r: "round4 (1 - 3) = - 2"
    by (simp add: round4_def Math_round_def)
  show ?thesis
    using consumeUnits_clamps_balance [of test_env meter_store "''12345678''" 3] h r
    by simp
qed

end
